theory Spec2Isabelle
  imports Complex_Main
begin

section \<open>Compressive-sensing reconstruction (reconstruction.py)\<close>

text \<open>
  The embedding follows \<^verbatim>\<open>src/reconstruction.py\<close>. A float64 is modelled as the
  \<^typ>\<open>real\<close> it stands for. The rounding of a result that is not lost to underflow,
  overflow, infinities and NaN are outside the model. The one place where an underflow
  decides a branch, the sign test of the sparse step, is modelled. A NumPy vector is a \<^typ>\<open>real list\<close>, the operator matrix of shape
  \<open>(frequency.size, time_coarse.size)\<close> is a list of rows, indexed
  \<open>fourier_transform ! frequency_index ! time_index\<close>.
\<close>

subsection \<open>Kernel launches\<close>

text \<open>
  \<^verbatim>\<open>kernel[blocks_per_grid, threads_per_block](args)\<close> runs the kernel body once for
  every thread index \<open>threadIdx.x + blockIdx.x*blockDim.x\<close>, that is for every index
  below \<open>blocks_per_grid * threads_per_block\<close>. In each kernel modelled here a thread
  writes only the cells of its own index and reads no cell another thread of the same
  launch writes, so the threads are run one after the other, in increasing order.
\<close>

definition launch :: "nat \<Rightarrow> nat \<Rightarrow> (nat \<Rightarrow> 's \<Rightarrow> 's) \<Rightarrow> 's \<Rightarrow> 's" where
  "launch blocks_per_grid threads_per_block thread s =
     fold thread [0..<blocks_per_grid * threads_per_block] s"

text \<open>\<^verbatim>\<open>threads_per_block = 128\<close> and
  \<^verbatim>\<open>(size + (threads_per_block - 1)) // threads_per_block\<close> of the drivers.\<close>

definition threads_per_block :: nat where
  "threads_per_block = 128"

definition blocksPer_grid :: "nat \<Rightarrow> nat" where
  "blocksPer_grid n = (n + (threads_per_block - 1)) div threads_per_block"

subsection \<open>The kernels, one thread each\<close>

text \<open>
  The comparison \<^verbatim>\<open>a*b < 0\<close> on float64 values. The product is rounded to the nearest
  float64, ties to even: a product of magnitude at most \<open>2\<^sup>-\<^sup>1\<^sup>0\<^sup>7\<^sup>5\<close>, half the least
  positive float64, becomes a signed zero, which is not below zero; a product of larger
  magnitude keeps its sign.
\<close>

definition float64_half_least :: real where
  "float64_half_least = 1 / 2 ^ 1075"

definition float64_product_negative :: "real \<Rightarrow> real \<Rightarrow> bool" where
  "float64_product_negative a b \<longleftrightarrow> a * b < - float64_half_least"

text \<open>\<^verbatim>\<open>reconstruct_ista_sparse_step(step_size, amplitude)\<close>, lines 259-283.\<close>

definition reconstruct_ista_sparse_step :: "real \<Rightarrow> nat \<Rightarrow> real list \<Rightarrow> real list" where
  "reconstruct_ista_sparse_step step_size time_index amplitude =
     (if time_index < length amplitude then
        let amplitude_previous = amplitude ! time_index;
            amplitude1 =
              (if amplitude_previous > 0 then
                 amplitude[time_index := amplitude ! time_index - step_size]
               else if amplitude_previous < 0 then
                 amplitude[time_index := amplitude ! time_index + step_size]
               else amplitude)
        in if float64_product_negative (amplitude1 ! time_index) amplitude_previous
           then amplitude1[time_index := 0]
           else amplitude1
      else amplitude)"

text \<open>The value that lines 276-283 leave in a cell that held \<open>x\<close>.\<close>

definition sparse_cell :: "real \<Rightarrow> real \<Rightarrow> real" where
  "sparse_cell step_size x =
     (let y = (if x > 0 then x - step_size else if x < 0 then x + step_size else x)
      in if float64_product_negative y x then 0 else y)"

text \<open>
  \<^verbatim>\<open>reconstruct_ista_prediction_step(frequency_amplitude, amplitude, fourier_transform,
  frequency_amplitude_prediction)\<close>, lines 285-294. The thread overwrites its cell of the
  prediction buffer with the negated measurement and then accumulates the row of the
  operator against the signal.
\<close>

definition reconstruct_ista_prediction_step ::
  "real list \<Rightarrow> real list \<Rightarrow> real list list \<Rightarrow> nat \<Rightarrow> real list \<Rightarrow> real list" where
  "reconstruct_ista_prediction_step frequency_amplitude amplitude fourier_transform
       frequency_index frequency_amplitude_prediction =
     (if frequency_index < length frequency_amplitude_prediction then
        fold (\<lambda>time_index prediction.
                prediction[frequency_index := prediction ! frequency_index
                  + fourier_transform ! frequency_index ! time_index * amplitude ! time_index])
          [0..<length amplitude]
          (frequency_amplitude_prediction[frequency_index := - frequency_amplitude ! frequency_index])
      else frequency_amplitude_prediction)"

text \<open>
  \<^verbatim>\<open>reconstruct_sista_manifold_step(frequency_amplitude_prediction, step_size,
  fourier_transform, amplitude)\<close>, lines 296-308.
\<close>

definition reconstruct_sista_manifold_step ::
  "real list \<Rightarrow> real \<Rightarrow> real list list \<Rightarrow> nat \<Rightarrow> real list \<Rightarrow> real list" where
  "reconstruct_sista_manifold_step frequency_amplitude_prediction step_size fourier_transform
       time_index amplitude =
     (if time_index < length amplitude then
        fold (\<lambda>frequency_index a.
                a[time_index := a ! time_index
                  - fourier_transform ! frequency_index ! time_index
                    * (frequency_amplitude_prediction ! frequency_index) * step_size])
          [0..<length frequency_amplitude_prediction]
          amplitude
      else amplitude)"

text \<open>
  \<^verbatim>\<open>reconstruct_ista_initialisation_step(frequency, frequency_amplitude, time_step_coarse,
  time_coarse, amplitude, fourier_transform)\<close>, lines 244-257. The thread writes column
  \<open>time_index\<close> of the operator and cell \<open>time_index\<close> of the signal; the state is the
  pair of the two arrays it writes. The divisor is the last sample time
  \<^verbatim>\<open>time_coarse[time_coarse.size - 1]\<close>.
\<close>

definition reconstruct_ista_initialisation_step ::
  "real list \<Rightarrow> real list \<Rightarrow> real \<Rightarrow> real list \<Rightarrow> nat
     \<Rightarrow> real list \<times> real list list \<Rightarrow> real list \<times> real list list" where
  "reconstruct_ista_initialisation_step frequency frequency_amplitude time_step_coarse time_coarse
       time_index s =
     (if time_index < length time_coarse then
        fold (\<lambda>frequency_index (amplitude, fourier_transform).
                let fourier_transform' = fourier_transform[frequency_index :=
                      (fourier_transform ! frequency_index)[time_index :=
                         sin (2 * pi * frequency ! frequency_index * time_coarse ! time_index)
                           * time_step_coarse / time_coarse ! (length time_coarse - 1)]]
                in (amplitude[time_index := amplitude ! time_index
                      + 2 * fourier_transform' ! frequency_index ! time_index
                        * (time_coarse ! (length time_coarse - 1) / time_step_coarse)
                        * frequency_amplitude ! frequency_index],
                    fourier_transform'))
          [0..<length frequency]
          ((fst s)[time_index := 0], snd s)
      else s)"

text \<open>
  The operator construction at the head of \<^verbatim>\<open>reconstruct_ista_complete\<close>, lines
  206-211: the signal cell is zeroed and column \<open>time_index\<close> of the operator is
  written, with the grid span \<^verbatim>\<open>time_coarse[time_coarse.size - 1] - time_coarse[0]\<close>
  as divisor. The rest of that kernel never writes the operator.
\<close>

definition reconstruct_ista_complete_initialise ::
  "real list \<Rightarrow> real \<Rightarrow> real list \<Rightarrow> nat
     \<Rightarrow> real list \<times> real list list \<Rightarrow> real list \<times> real list list" where
  "reconstruct_ista_complete_initialise frequency time_step_coarse time_coarse time_index s =
     (if time_index < length time_coarse then
        fold (\<lambda>frequency_index (amplitude, fourier_transform).
                (amplitude, fourier_transform[frequency_index :=
                   (fourier_transform ! frequency_index)[time_index :=
                      sin (2 * pi * frequency ! frequency_index * time_coarse ! time_index)
                        * time_step_coarse
                        / (time_coarse ! (length time_coarse - 1) - time_coarse ! 0)]]))
          [0..<length frequency]
          ((fst s)[time_index := 0], snd s)
      else s)"

subsection \<open>NumPy and Python operations of the drivers\<close>

text \<open>
  Element-wise arithmetic on vectors of one shape (the drivers only combine vectors of
  the length of the time grid), \<^verbatim>\<open>c*a\<close>, \<^verbatim>\<open>a**2\<close>, and Python's built-in
  \<^verbatim>\<open>sum\<close>, which adds the elements from the left, starting at zero.
\<close>

definition np_sub :: "real list \<Rightarrow> real list \<Rightarrow> real list" where
  "np_sub a b = map2 (-) a b"

definition np_add :: "real list \<Rightarrow> real list \<Rightarrow> real list" where
  "np_add a b = map2 (+) a b"

definition np_scale :: "real \<Rightarrow> real list \<Rightarrow> real list" where
  "np_scale c a = map ((*) c) a"

definition np_square :: "real list \<Rightarrow> real list" where
  "np_square a = map (\<lambda>x. x ^ 2) a"

definition py_sum :: "real list \<Rightarrow> real" where
  "py_sum xs = foldl (+) 0 xs"

text \<open>
  \<^verbatim>\<open>np.empty_like\<close> and \<^verbatim>\<open>np.empty\<close> return uninitialised memory: the contents
  are a parameter, a function from the index to the value found there.
\<close>

definition np_empty :: "(nat \<Rightarrow> real) \<Rightarrow> nat \<Rightarrow> real list" where
  "np_empty contents n = map contents [0..<n]"

definition np_empty2 :: "(nat \<Rightarrow> nat \<Rightarrow> real) \<Rightarrow> nat \<Rightarrow> nat \<Rightarrow> real list list" where
  "np_empty2 contents rows columns = map (\<lambda>r. map (contents r) [0..<columns]) [0..<rows]"

text \<open>A \<^verbatim>\<open>while\<close> loop that may run forever: not returning is the value \<open>None\<close>.\<close>

partial_function (option) py_while :: "('s \<Rightarrow> bool) \<Rightarrow> ('s \<Rightarrow> 's) \<Rightarrow> 's \<Rightarrow> 's option" where
  "py_while continue body s = (if continue s then py_while continue body (body s) else Some s)"

subsection \<open>The class \<^verbatim>\<open>Reconstruction\<close>\<close>

datatype error = ValueError | IndexError | AttributeError | TypingError

text \<open>
  The attributes of a \<^verbatim>\<open>Reconstruction\<close> object. Of \<^verbatim>\<open>self.time_properties\<close> the
  code reads \<^verbatim>\<open>time_coarse\<close> and \<^verbatim>\<open>time_step_coarse\<close>. An attribute that
  \<^verbatim>\<open>__init__\<close> sets to \<^verbatim>\<open>None\<close> is an option.
\<close>

record reconstruction =
  self_time_coarse :: "real list"
  self_time_step_coarse :: real
  self_frequency :: "real list option"
  self_frequency_amplitude :: "real list option"
  self_amplitude :: "real list option"
  self_step_size_sparse :: real
  self_step_size_manifold :: real

text \<open>\<^verbatim>\<open>__init__(self, time_properties, step_size_sparse = 0.1, step_size_manifold = 100000)\<close>.\<close>

definition init_reconstruction :: "real list \<Rightarrow> real \<Rightarrow> real \<Rightarrow> real \<Rightarrow> reconstruction" where
  "init_reconstruction time_coarse time_step_coarse step_size_sparse step_size_manifold =
     \<lparr>self_time_coarse = time_coarse, self_time_step_coarse = time_step_coarse,
      self_frequency = None, self_frequency_amplitude = None, self_amplitude = None,
      self_step_size_sparse = step_size_sparse, self_step_size_manifold = step_size_manifold\<rparr>"

text \<open>
  \<^verbatim>\<open>np.random.choice(range(population), number_of_samples)\<close> draws with the default
  \<^verbatim>\<open>replace=True\<close>: every list of \<open>number_of_samples\<close> indices below \<open>population\<close> is
  a possible result. The result drawn is a parameter of the model; this predicate says
  which lists can be drawn.
\<close>

definition random_choice_outcome :: "nat \<Rightarrow> int \<Rightarrow> nat list \<Rightarrow> bool" where
  "random_choice_outcome population number_of_samples draw =
     (int (length draw) = number_of_samples \<and> list_all (\<lambda>i. i < population) draw)"

text \<open>
  \<^verbatim>\<open>read_frequencies_directly(self, frequency, frequency_amplitude, number_of_samples,
  frequency_cutoff)\<close>, lines 23-29. \<^verbatim>\<open>np.sum(frequency < frequency_cutoff)\<close> counts
  the entries below the cutoff and the indices are drawn from \<^verbatim>\<open>range\<close> of that
  count. \<^verbatim>\<open>np.random.choice\<close> raises \<^verbatim>\<open>ValueError\<close> for a negative size and for
  an empty population unless no sample is taken. With an empty population and no sample
  it returns an empty array of floats, and indexing \<^verbatim>\<open>frequency\<close> with that array
  raises \<^verbatim>\<open>IndexError\<close> before anything is stored. Indexing with a drawn array of
  indices copies the selected entries; an index beyond \<^verbatim>\<open>frequency_amplitude\<close> raises
  \<^verbatim>\<open>IndexError\<close> after \<^verbatim>\<open>self.frequency\<close> has been assigned. The result is the
  exception raised, if any, and the object as the call leaves it.
\<close>

definition read_frequencies_directly ::
  "nat list \<Rightarrow> reconstruction \<Rightarrow> real list \<Rightarrow> real list \<Rightarrow> int \<Rightarrow> real
     \<Rightarrow> error option \<times> reconstruction" where
  "read_frequencies_directly draw self frequency frequency_amplitude number_of_samples
       frequency_cutoff =
     (let population = length (filter (\<lambda>f. f < frequency_cutoff) frequency) in
      if number_of_samples < 0 \<or> (population = 0 \<and> number_of_samples \<noteq> 0) then
        (Some ValueError, self)
      else if population = 0 then
        (Some IndexError, self)
      else
        let permutation = draw;
            self1 = self\<lparr>self_frequency := Some (map (\<lambda>i. frequency ! i) permutation)\<rparr>
        in if list_all (\<lambda>i. i < length frequency_amplitude) permutation then
             (None, self1\<lparr>self_frequency_amplitude :=
                Some (map (\<lambda>i. frequency_amplitude ! i) permutation)\<rparr>)
           else (Some IndexError, self1))"

subsection \<open>The iteration drivers\<close>

text \<open>
  The variables of a driver while its loop runs: the arrays it passes to the kernels and
  the momentum bookkeeping of FISTA.
\<close>

record workspace =
  v_time_coarse :: "real list"
  v_frequency :: "real list"
  v_frequency_amplitude :: "real list"
  v_fourier_transform :: "real list list"
  v_frequency_amplitude_prediction :: "real list"
  v_amplitude :: "real list"
  v_amplitude_previous :: "real list"
  v_fast_step_size :: real
  v_fastStep_size_previous :: real

text \<open>The loop test \<^verbatim>\<open>sum((self.amplitude - amplitude_previous)**2) > 1\<close> of both drivers.\<close>

definition not_converged :: "workspace \<Rightarrow> bool" where
  "not_converged w = (py_sum (np_square (np_sub (v_amplitude w) (v_amplitude_previous w))) > 1)"

text \<open>
  The three kernel launches of lines 127-129 of \<^verbatim>\<open>evaluate_fista\<close>: prediction,
  manifold step, sparse step, each on the result of the one before. The first component
  is the signal, the second the prediction buffer.
\<close>

definition ista_steps :: "real \<Rightarrow> real \<Rightarrow> nat \<Rightarrow> nat \<Rightarrow> workspace \<Rightarrow> real list \<times> real list" where
  "ista_steps step_size_sparse step_size_manifold blocksPer_grid_time blocksPer_grid_frequency w =
     (let frequency_amplitude_prediction =
            launch blocksPer_grid_frequency threads_per_block
              (reconstruct_ista_prediction_step (v_frequency_amplitude w) (v_amplitude w)
                 (v_fourier_transform w))
              (v_frequency_amplitude_prediction w);
          amplitude1 =
            launch blocksPer_grid_time threads_per_block
              (reconstruct_sista_manifold_step frequency_amplitude_prediction step_size_manifold
                 (v_fourier_transform w))
              (v_amplitude w);
          amplitude2 =
            launch blocksPer_grid_time threads_per_block
              (reconstruct_ista_sparse_step step_size_sparse) amplitude1
      in (amplitude2, frequency_amplitude_prediction))"

text \<open>The body of the loop of \<^verbatim>\<open>evaluate_fista\<close>, lines 124-134.\<close>

definition fista_iteration :: "real \<Rightarrow> real \<Rightarrow> nat \<Rightarrow> nat \<Rightarrow> workspace \<Rightarrow> workspace" where
  "fista_iteration step_size_sparse step_size_manifold blocksPer_grid_time
       blocksPer_grid_frequency w =
     (let amplitude_previous = np_scale 1 (v_amplitude w);
          (amplitude, frequency_amplitude_prediction) =
            ista_steps step_size_sparse step_size_manifold blocksPer_grid_time
              blocksPer_grid_frequency w;
          fastStep_size_previous = v_fast_step_size w;
          fast_step_size = (1 + sqrt (1 + 4 * (v_fast_step_size w) ^ 2)) / 2
      in w\<lparr>v_frequency_amplitude_prediction := frequency_amplitude_prediction,
           v_amplitude := np_add amplitude
             (np_scale ((fastStep_size_previous - 1) / fast_step_size)
                (np_sub amplitude amplitude_previous)),
           v_amplitude_previous := amplitude_previous,
           v_fast_step_size := fast_step_size,
           v_fastStep_size_previous := fastStep_size_previous\<rparr>)"

text \<open>
  Lines 107-121 of \<^verbatim>\<open>evaluate_fista\<close>: the buffers are allocated, the
  initialisation kernel builds the operator and the seed, and the momentum variables are
  set to one.
\<close>

definition fista_start ::
  "(nat \<Rightarrow> real) \<Rightarrow> (nat \<Rightarrow> real) \<Rightarrow> (nat \<Rightarrow> nat \<Rightarrow> real) \<Rightarrow> real list \<Rightarrow> real
     \<Rightarrow> real list \<Rightarrow> real list \<Rightarrow> workspace" where
  "fista_start empty_amplitude empty_prediction empty_transform time_coarse time_step_coarse
       frequency frequency_amplitude =
     (let (amplitude, fourier_transform) =
            launch (blocksPer_grid (length time_coarse)) threads_per_block
              (reconstruct_ista_initialisation_step frequency frequency_amplitude
                 time_step_coarse time_coarse)
              (np_empty empty_amplitude (length time_coarse),
               np_empty2 empty_transform (length frequency) (length time_coarse))
      in \<lparr>v_time_coarse = time_coarse, v_frequency = frequency,
          v_frequency_amplitude = frequency_amplitude,
          v_fourier_transform = fourier_transform,
          v_frequency_amplitude_prediction =
            np_empty empty_prediction (length frequency_amplitude),
          v_amplitude = amplitude,
          v_amplitude_previous = np_scale 0 amplitude,
          v_fast_step_size = 1,
          v_fastStep_size_previous = 1\<rparr>)"

text \<open>
  \<^verbatim>\<open>evaluate_fista(self)\<close>, lines 96-138. \<^verbatim>\<open>self.amplitude\<close> is assigned first;
  without ingested samples \<^verbatim>\<open>self.frequency.size\<close> raises \<^verbatim>\<open>AttributeError\<close>,
  and a missing \<^verbatim>\<open>self.frequency_amplitude\<close> cannot be typed by the kernel launch.
  The outer option is \<open>None\<close> when the loop never ends.
\<close>

definition evaluate_fista ::
  "(nat \<Rightarrow> real) \<Rightarrow> (nat \<Rightarrow> real) \<Rightarrow> (nat \<Rightarrow> nat \<Rightarrow> real) \<Rightarrow> reconstruction
     \<Rightarrow> (error option \<times> reconstruction) option" where
  "evaluate_fista empty_amplitude empty_prediction empty_transform self =
     (let self1 = self\<lparr>self_amplitude :=
            Some (np_empty empty_amplitude (length (self_time_coarse self)))\<rparr>
      in case self_frequency self of
           None \<Rightarrow> Some (Some AttributeError, self1)
         | Some frequency \<Rightarrow>
             (case self_frequency_amplitude self of
                None \<Rightarrow> Some (Some TypingError, self1)
              | Some frequency_amplitude \<Rightarrow>
                  map_option (\<lambda>w. (None, self\<lparr>self_amplitude := Some (v_amplitude w)\<rparr>))
                    (py_while not_converged
                       (fista_iteration (self_step_size_sparse self)
                          (self_step_size_manifold self)
                          (blocksPer_grid (length (self_time_coarse self)))
                          (blocksPer_grid (length frequency)))
                       (fista_start empty_amplitude empty_prediction empty_transform
                          (self_time_coarse self) (self_time_step_coarse self)
                          frequency frequency_amplitude))))"

text \<open>
  The body of the loop of \<^verbatim>\<open>evaluate_naive_ista\<close>, lines 174-183: sparse step,
  prediction, manifold step.
\<close>

definition naive_ista_iteration :: "real \<Rightarrow> real \<Rightarrow> nat \<Rightarrow> nat \<Rightarrow> workspace \<Rightarrow> workspace" where
  "naive_ista_iteration step_size_sparse step_size_manifold blocksPer_grid_time
       blocksPer_grid_frequency w =
     (let amplitude_previous = np_scale 1 (v_amplitude w);
          amplitude1 =
            launch blocksPer_grid_time threads_per_block
              (reconstruct_ista_sparse_step step_size_sparse) (v_amplitude w);
          frequency_amplitude_prediction =
            launch blocksPer_grid_frequency threads_per_block
              (reconstruct_ista_prediction_step (v_frequency_amplitude w) amplitude1
                 (v_fourier_transform w))
              (v_frequency_amplitude_prediction w);
          amplitude2 =
            launch blocksPer_grid_time threads_per_block
              (reconstruct_sista_manifold_step frequency_amplitude_prediction step_size_manifold
                 (v_fourier_transform w))
              amplitude1
      in w\<lparr>v_frequency_amplitude_prediction := frequency_amplitude_prediction,
           v_amplitude := amplitude2,
           v_amplitude_previous := amplitude_previous\<rparr>)"

text \<open>
  Lines 167-183 of \<^verbatim>\<open>evaluate_naive_ista\<close>. The kernels that the lines before
  the loop launch, \<^verbatim>\<open>reconstructNaive_initialisation_step\<close> and
  \<^verbatim>\<open>reconstructNaive_prediction_step\<close>, are not defined in the source file, so the
  arrays as they stand before line 167 are the parameter \<open>w\<close>.
\<close>

definition naive_ista_loop :: "real \<Rightarrow> real \<Rightarrow> nat \<Rightarrow> nat \<Rightarrow> workspace \<Rightarrow> workspace option" where
  "naive_ista_loop step_size_sparse step_size_manifold blocksPer_grid_time
       blocksPer_grid_frequency w =
     py_while not_converged
       (naive_ista_iteration step_size_sparse step_size_manifold blocksPer_grid_time
          blocksPer_grid_frequency)
       (w\<lparr>v_amplitude_previous := np_scale 0 (v_amplitude w)\<rparr>)"

text \<open>
  Two states of a driver hold the same operator, measured frequencies, measured
  amplitudes and time grid.
\<close>

definition same_inputs :: "workspace \<Rightarrow> workspace \<Rightarrow> bool" where
  "same_inputs u w \<longleftrightarrow>
     v_fourier_transform u = v_fourier_transform w \<and> v_frequency u = v_frequency w
     \<and> v_frequency_amplitude u = v_frequency_amplitude w \<and> v_time_coarse u = v_time_coarse w"

subsection \<open>The specification's own words\<close>

text \<open>
  The soft threshold in the words of the specification: a value larger in magnitude than
  the step is moved towards zero by the step, any other value becomes zero.
\<close>

definition shrink :: "real \<Rightarrow> real \<Rightarrow> real" where
  "shrink x step_size =
     (if \<bar>x\<bar> > step_size then x - sgn x * step_size else 0)"

text \<open>
  The momentum scalars of the specification, \<open>t\<^sub>1 = 1\<close> and
  \<open>t\<^bsub>k+1\<^esub> = (1 + \<surd>(1 + 4 t\<^sub>k\<^sup>2)) / 2\<close>. The sequence starts at index one:
  \<open>momentum_t k\<close> is \<open>t\<^bsub>k+1\<^esub>\<close>.
\<close>

fun momentum_t :: "nat \<Rightarrow> real" where
  "momentum_t 0 = 1"
| "momentum_t (Suc k) = (1 + sqrt (1 + 4 * (momentum_t k) ^ 2)) / 2"

text \<open>
  The loop body of plain ISTA in the order the specification gives: prediction, manifold
  step, sparse step, without momentum.
\<close>

definition spec_ista_iteration :: "real \<Rightarrow> real \<Rightarrow> nat \<Rightarrow> nat \<Rightarrow> workspace \<Rightarrow> workspace" where
  "spec_ista_iteration step_size_sparse step_size_manifold blocksPer_grid_time
       blocksPer_grid_frequency w =
     (let (amplitude, frequency_amplitude_prediction) =
            ista_steps step_size_sparse step_size_manifold blocksPer_grid_time
              blocksPer_grid_frequency w
      in w\<lparr>v_frequency_amplitude_prediction := frequency_amplitude_prediction,
           v_amplitude := amplitude,
           v_amplitude_previous := np_scale 1 (v_amplitude w)\<rparr>)"

section \<open>Kernel launches in closed form\<close>

lemma fold_own_cell:
  assumes own: "\<And>i xs. i < length xs \<Longrightarrow> thread i xs = xs[i := g i (xs ! i)]"
  shows "n \<le> length xs \<Longrightarrow>
    fold thread [0..<n] xs = map (\<lambda>i. if i < n then g i (xs ! i) else xs ! i) [0..<length xs]"
proof (induction n)
  case 0
  show ?case by (simp add: map_nth)
next
  case (Suc n)
  let ?ys = "map (\<lambda>i. if i < n then g i (xs ! i) else xs ! i) [0..<length xs]"
  have n: "n < length xs" using Suc.prems by simp
  have "fold thread [0..<Suc n] xs = thread n ?ys"
    using Suc by simp
  also have "\<dots> = ?ys[n := g n (?ys ! n)]"
    using n by (simp add: own)
  also have "\<dots> = map (\<lambda>i. if i < Suc n then g i (xs ! i) else xs ! i) [0..<length xs]"
    using n by (auto intro!: nth_equalityI simp: nth_list_update less_Suc_eq)
  finally show ?case .
qed

lemma fold_idle_threads:
  assumes idle: "\<And>i. m \<le> i \<Longrightarrow> thread i s = s"
  shows "fold thread [m..<m + k] s = s"
proof (induction k)
  case 0
  show ?case by simp
next
  case (Suc k)
  have "fold thread [m..<m + Suc k] s = thread (m + k) (fold thread [m..<m + k] s)"
    by simp
  then show ?case using Suc idle by simp
qed

lemma launch_own_cell:
  assumes own: "\<And>i xs. i < length xs \<Longrightarrow> thread i xs = xs[i := g i (xs ! i)]"
    and idle: "\<And>i xs. length xs \<le> i \<Longrightarrow> thread i xs = xs"
    and cover: "length xs \<le> blocks * tpb"
  shows "launch blocks tpb thread xs = map (\<lambda>i. g i (xs ! i)) [0..<length xs]"
proof -
  let ?ys = "map (\<lambda>i. g i (xs ! i)) [0..<length xs]"
  obtain k where k: "blocks * tpb = length xs + k"
    using cover by (auto simp: le_iff_add)
  have "[0..<blocks * tpb] = [0..<length xs] @ [length xs..<length xs + k]"
    unfolding k by (simp only: upt_add_eq_append [OF le0])
  then have "launch blocks tpb thread xs
      = fold thread [length xs..<length xs + k] (fold thread [0..<length xs] xs)"
    by (simp only: launch_def fold_append comp_apply)
  also have "fold thread [0..<length xs] xs = ?ys"
    using fold_own_cell [of thread g "length xs" xs, OF own] by simp
  also have "fold thread [length xs..<length xs + k] ?ys = ?ys"
  proof -
    have len: "length ?ys = length xs" by simp
    have "fold thread [length ?ys..<length ?ys + k] ?ys = ?ys"
      by (rule fold_idle_threads) (rule idle)
    then show ?thesis by (simp only: len)
  qed
  finally show ?thesis .
qed

lemma blocksPer_grid_cover: "n \<le> blocksPer_grid n * threads_per_block"
proof -
  have "n \<le> (n + 127) div 128 * 128" by arith
  then show ?thesis by (simp add: blocksPer_grid_def threads_per_block_def)
qed


section \<open>The sparsity shrinkage step\<close>

lemma sparse_thread:
  assumes "time_index < length amplitude"
  shows "reconstruct_ista_sparse_step step_size time_index amplitude
     = amplitude[time_index := sparse_cell step_size (amplitude ! time_index)]"
proof (cases "amplitude ! time_index = 0")
  case True
  have "amplitude[time_index := amplitude ! time_index] = amplitude"
    by (rule list_update_id)
  then have "amplitude[time_index := 0] = amplitude"
    by (simp only: True)
  with True assms show ?thesis
    by (simp add: reconstruct_ista_sparse_step_def sparse_cell_def)
next
  case False
  with assms show ?thesis
    by (simp add: reconstruct_ista_sparse_step_def sparse_cell_def Let_def)
qed

lemma sparse_launch:
  assumes "length amplitude \<le> blocks * tpb"
  shows "launch blocks tpb (reconstruct_ista_sparse_step step_size) amplitude
    = map (sparse_cell step_size) amplitude"
proof -
  have "launch blocks tpb (reconstruct_ista_sparse_step step_size) amplitude
      = map (\<lambda>i. (\<lambda>(i::nat) x. sparse_cell step_size x) i (amplitude ! i))
          [0..<length amplitude]"
  proof (rule launch_own_cell [OF _ _ assms])
    fix i and xs :: "real list"
    assume "i < length xs"
    then show "reconstruct_ista_sparse_step step_size i xs
        = xs[i := (\<lambda>(i::nat) x. sparse_cell step_size x) i (xs ! i)]"
      by (simp add: sparse_thread)
  next
    fix i and xs :: "real list"
    assume "length xs \<le> i"
    then show "reconstruct_ista_sparse_step step_size i xs = xs"
      by (simp add: reconstruct_ista_sparse_step_def)
  qed
  also have "\<dots> = map (sparse_cell step_size) amplitude"
    by (rule nth_equalityI) simp_all
  finally show ?thesis .
qed

text \<open>
  Where the product of the sign test does not underflow, the cell becomes the soft
  threshold of the specification.
\<close>

lemma sparse_cell_soft_threshold:
  assumes "0 < step_size"
    and "step_size \<le> \<bar>x\<bar> \<or> x = 0 \<or> float64_half_least < \<bar>x\<bar> * (step_size - \<bar>x\<bar>)"
  shows "sparse_cell step_size x = shrink x step_size"
proof -
  have eps: "0 < float64_half_least" by (simp add: float64_half_least_def)
  consider "x > step_size" | "x < - step_size" | "x = step_size" | "x = - step_size"
    | "x = 0" | "0 < x" "x < step_size" | "x < 0" "- step_size < x"
    by linarith
  then show ?thesis
  proof cases
    case 1
    then have "0 < (x - step_size) * x" using assms(1) by (intro mult_pos_pos) linarith+
    then have "\<not> (x - step_size) * x < - float64_half_least" using eps by linarith
    with 1 assms(1) show ?thesis
      by (simp add: sparse_cell_def float64_product_negative_def shrink_def)
  next
    case 2
    then have "0 < (x + step_size) * x" using assms(1) by (intro mult_neg_neg) linarith+
    then have "\<not> (x + step_size) * x < - float64_half_least" using eps by linarith
    with 2 assms(1) show ?thesis
      by (simp add: sparse_cell_def float64_product_negative_def shrink_def)
  next
    case 3
    with assms(1) show ?thesis
      by (simp add: sparse_cell_def float64_product_negative_def shrink_def)
  next
    case 4
    with assms(1) show ?thesis
      by (simp add: sparse_cell_def float64_product_negative_def shrink_def)
  next
    case 5
    with assms(1) show ?thesis
      by (simp add: sparse_cell_def float64_product_negative_def shrink_def)
  next
    case 6
    then have "float64_half_least < x * (step_size - x)" using assms(2) by simp
    then have "(x - step_size) * x < - float64_half_least" by (simp add: algebra_simps)
    with 6 show ?thesis
      by (simp add: sparse_cell_def float64_product_negative_def shrink_def)
  next
    case 7
    then have "float64_half_least < - x * (step_size + x)" using assms(2) by simp
    then have "(x + step_size) * x < - float64_half_least" by (simp add: algebra_simps)
    with 7 show ?thesis
      by (simp add: sparse_cell_def float64_product_negative_def shrink_def)
  qed
qed

text \<open>
  A value so small that its product with the step underflows passes the sign test and
  is replaced by the value of opposite sign.
\<close>

lemma sparse_cell_underflow:
  assumes "0 < x" and "x < step_size" and "x * step_size \<le> float64_half_least"
  shows "sparse_cell step_size x = x - step_size"
proof -
  have square: "0 \<le> x * x" by simp
  have "(x - step_size) * x = x * x - x * step_size"
    by (simp add: algebra_simps)
  then have "\<not> (x - step_size) * x < - float64_half_least"
    using assms(3) square by linarith
  with assms(1) show ?thesis
    by (simp add: sparse_cell_def float64_product_negative_def)
qed

text \<open>
  C1. For every real input value \<open>x\<close> and every positive step size \<open>s\<close> the shrinkage step
  computes the soft threshold: if \<open>\<bar>x\<bar> > s\<close> the result is \<open>x\<close> reduced in magnitude by
  \<open>s\<close> with the sign of \<open>x\<close>, if \<open>\<bar>x\<bar> \<le> s\<close> it is exactly zero, never a small residue
  of opposite sign. The docstring of the kernel states the same equivalence and its
  comment sets the cell to zero rather than let it change sign. The sign test of line
  282 multiplies the shrunk value by the old one, and for the least positive float64
  \<open>x = 2\<^sup>-\<^sup>1\<^sup>0\<^sup>7\<^sup>4\<close> with the step \<open>1/8\<close> that product underflows to zero: the kernel
  leaves \<open>x - 1/8\<close> in the cell (the float64 \<open>-0.125\<close>), a value of opposite sign, where
  the soft threshold is zero.
\<close>

theorem sparse_step_underflow_keeps_residue:
  "launch 1 128 (reconstruct_ista_sparse_step (1/8)) [1 / 2 ^ 1074] ! 0 = 1 / 2 ^ 1074 - 1/8
   \<and> 1 / 2 ^ 1074 - 1/8 < (0::real)
   \<and> shrink (1 / 2 ^ 1074) (1/8) = 0"
proof -
  have cover: "length [1 / 2 ^ 1074 :: real] \<le> 1 * 128" by simp
  have cell: "sparse_cell (1/8) (1 / 2 ^ 1074) = 1 / 2 ^ 1074 - 1/8"
    by (rule sparse_cell_underflow) (simp_all add: float64_half_least_def)
  have "launch 1 128 (reconstruct_ista_sparse_step (1/8)) [1 / 2 ^ 1074]
      = map (sparse_cell (1/8)) [1 / 2 ^ 1074]"
    by (rule sparse_launch [OF cover])
  then have 1: "launch 1 128 (reconstruct_ista_sparse_step (1/8)) [1 / 2 ^ 1074] ! 0
      = 1 / 2 ^ 1074 - 1/8"
    by (simp only: list.map nth_Cons_0 cell)
  have 2: "1 / 2 ^ 1074 - 1/8 < (0::real)" by simp
  have 3: "shrink (1 / 2 ^ 1074) (1/8) = 0" by (simp add: shrink_def)
  from 1 2 3 show ?thesis by (intro conjI)
qed


section \<open>The forward predictor and the manifold step\<close>

lemma fold_in_cell:
  assumes "i < length xs"
  shows "fold (\<lambda>j ys. ys[i := g j (ys ! i)]) [0..<n] xs = xs[i := fold g [0..<n] (xs ! i)]"
proof (induction n)
  case 0
  show ?case by simp
next
  case (Suc n)
  have "fold (\<lambda>j ys. ys[i := g j (ys ! i)]) [0..<Suc n] xs
      = (xs[i := fold g [0..<n] (xs ! i)])[i := g n ((xs[i := fold g [0..<n] (xs ! i)]) ! i)]"
    using Suc by simp
  also have "\<dots> = xs[i := g n (fold g [0..<n] (xs ! i))]"
    using assms by simp
  finally show ?case by simp
qed

lemma fold_add_sum:
  fixes v :: real
  shows "fold (\<lambda>j a. a + h j) [0..<n] v = v + (\<Sum>j<n. h j)"
  by (induction n) simp_all

lemma fold_diff_sum:
  fixes v :: real
  shows "fold (\<lambda>j a. a - h j) [0..<n] v = v - (\<Sum>j<n. h j)"
  by (induction n) simp_all

lemma prediction_thread:
  assumes "frequency_index < length prediction"
  shows "reconstruct_ista_prediction_step frequency_amplitude amplitude fourier_transform
           frequency_index prediction
    = prediction[frequency_index :=
        (\<Sum>time_index<length amplitude.
            fourier_transform ! frequency_index ! time_index * amplitude ! time_index)
        - frequency_amplitude ! frequency_index]"
proof -
  let ?h = "\<lambda>t. fourier_transform ! frequency_index ! t * amplitude ! t"
  let ?p0 = "prediction[frequency_index := - frequency_amplitude ! frequency_index]"
  have len: "frequency_index < length ?p0" using assms by simp
  have "reconstruct_ista_prediction_step frequency_amplitude amplitude fourier_transform
           frequency_index prediction
      = fold (\<lambda>t p. p[frequency_index := (\<lambda>t a. a + ?h t) t (p ! frequency_index)])
          [0..<length amplitude] ?p0"
    using assms by (simp add: reconstruct_ista_prediction_step_def)
  also have "\<dots> = ?p0[frequency_index :=
      fold (\<lambda>t a. a + ?h t) [0..<length amplitude] (?p0 ! frequency_index)]"
    by (rule fold_in_cell [OF len])
  also have "\<dots> = prediction[frequency_index :=
      - frequency_amplitude ! frequency_index + (\<Sum>t<length amplitude. ?h t)]"
    using assms by (simp add: fold_add_sum)
  finally show ?thesis by (simp add: algebra_simps)
qed

lemma prediction_launch:
  assumes "length prediction \<le> blocks * tpb"
  shows "launch blocks tpb
           (reconstruct_ista_prediction_step frequency_amplitude amplitude fourier_transform)
           prediction
    = map (\<lambda>frequency_index.
        (\<Sum>time_index<length amplitude.
            fourier_transform ! frequency_index ! time_index * amplitude ! time_index)
        - frequency_amplitude ! frequency_index) [0..<length prediction]"
proof -
  let ?g = "\<lambda>f (old::real). (\<Sum>t<length amplitude. fourier_transform ! f ! t * amplitude ! t)
              - frequency_amplitude ! f"
  have "launch blocks tpb
           (reconstruct_ista_prediction_step frequency_amplitude amplitude fourier_transform)
           prediction
      = map (\<lambda>i. ?g i (prediction ! i)) [0..<length prediction]"
  proof (rule launch_own_cell [OF _ _ assms])
    fix i and xs :: "real list"
    assume "i < length xs"
    then show "reconstruct_ista_prediction_step frequency_amplitude amplitude fourier_transform
        i xs = xs[i := ?g i (xs ! i)]"
      by (rule prediction_thread)
  next
    fix i and xs :: "real list"
    assume "length xs \<le> i"
    then show "reconstruct_ista_prediction_step frequency_amplitude amplitude fourier_transform
        i xs = xs"
      by (simp add: reconstruct_ista_prediction_step_def)
  qed
  then show ?thesis .
qed

lemma manifold_thread:
  assumes "time_index < length amplitude"
  shows "reconstruct_sista_manifold_step prediction step_size fourier_transform
           time_index amplitude
    = amplitude[time_index := amplitude ! time_index
        - (\<Sum>frequency_index<length prediction.
            fourier_transform ! frequency_index ! time_index * prediction ! frequency_index
              * step_size)]"
proof -
  let ?h = "\<lambda>f. fourier_transform ! f ! time_index * prediction ! f * step_size"
  have "reconstruct_sista_manifold_step prediction step_size fourier_transform
           time_index amplitude
      = fold (\<lambda>f a. a[time_index := (\<lambda>f v. v - ?h f) f (a ! time_index)])
          [0..<length prediction] amplitude"
    using assms by (simp add: reconstruct_sista_manifold_step_def)
  also have "\<dots> = amplitude[time_index :=
      fold (\<lambda>f v. v - ?h f) [0..<length prediction] (amplitude ! time_index)]"
    by (rule fold_in_cell [OF assms])
  finally show ?thesis by (simp add: fold_diff_sum)
qed

lemma manifold_launch:
  assumes "length amplitude \<le> blocks * tpb"
  shows "launch blocks tpb
           (reconstruct_sista_manifold_step prediction step_size fourier_transform) amplitude
    = map (\<lambda>time_index. amplitude ! time_index
        - (\<Sum>frequency_index<length prediction.
            fourier_transform ! frequency_index ! time_index * prediction ! frequency_index
              * step_size)) [0..<length amplitude]"
proof -
  let ?g = "\<lambda>t (old::real). old
      - (\<Sum>f<length prediction. fourier_transform ! f ! t * prediction ! f * step_size)"
  have "launch blocks tpb
           (reconstruct_sista_manifold_step prediction step_size fourier_transform) amplitude
      = map (\<lambda>i. ?g i (amplitude ! i)) [0..<length amplitude]"
  proof (rule launch_own_cell [OF _ _ assms])
    fix i and xs :: "real list"
    assume "i < length xs"
    then show "reconstruct_sista_manifold_step prediction step_size fourier_transform i xs
        = xs[i := ?g i (xs ! i)]"
      by (rule manifold_thread)
  next
    fix i and xs :: "real list"
    assume "length xs \<le> i"
    then show "reconstruct_sista_manifold_step prediction step_size fourier_transform i xs = xs"
      by (simp add: reconstruct_sista_manifold_step_def)
  qed
  then show ?thesis .
qed

text \<open>
  C5. For every frequency index \<open>f\<close> the forward predictor returns
  \<open>residual[f] = (\<Sum>t. operator[f,t] * candidate[t]) - measured[f]\<close>, the sum running
  over all time indices. The residual is a function of the candidate, the operator and
  the measured array only: launched on a grid that covers the residual buffer, with the
  arrays of the shapes the drivers allocate, the kernel overwrites every cell, and any
  other prior contents of the buffer give the same result.
\<close>

theorem prediction_step_residual:
  assumes "length prediction \<le> blocks * tpb"
    and "length frequency_amplitude = length prediction"
    and "length fourier_transform = length prediction"
    and "list_all (\<lambda>row. length row = length amplitude) fourier_transform"
  shows "launch blocks tpb
           (reconstruct_ista_prediction_step frequency_amplitude amplitude fourier_transform)
           prediction
      = map (\<lambda>frequency_index.
          (\<Sum>time_index<length amplitude.
              fourier_transform ! frequency_index ! time_index * amplitude ! time_index)
          - frequency_amplitude ! frequency_index) [0..<length frequency_amplitude]
    \<and> (\<forall>other. length other = length prediction \<longrightarrow>
          launch blocks tpb
            (reconstruct_ista_prediction_step frequency_amplitude amplitude fourier_transform)
            other
          = launch blocks tpb
            (reconstruct_ista_prediction_step frequency_amplitude amplitude fourier_transform)
            prediction)"
  using assms(1,2) by (simp add: prediction_launch)

theorem prediction_step_residual_witness:
  "launch 1 128 (reconstruct_ista_prediction_step [1, 2] [1, 2, 3] [[1, 0, 1], [0, 1, 0]]) [7, 9]
     = [3, 0]
   \<and> launch 1 128 (reconstruct_ista_prediction_step [1, 2] [1, 2, 3] [[1, 0, 1], [0, 1, 0]]) [0, 0]
     = [3, 0]"
proof -
  have cover: "length [7, 9 :: real] \<le> 1 * 128" by simp
  have measured: "length [1, 2 :: real] = length [7, 9 :: real]" by simp
  have rows: "length [[1, 0, 1], [0, 1, 0 :: real]] = length [7, 9 :: real]" by simp
  have columns: "list_all (\<lambda>row. length row = length [1, 2, 3 :: real])
      [[1, 0, 1], [0, 1, 0 :: real]]" by simp
  have sum3: "\<And>h :: nat \<Rightarrow> real. (\<Sum>t<3. h t) = h 0 + h 1 + h 2"
    by (simp add: eval_nat_numeral)
  have idx: "[0..<2] = [0, 1]" by (simp add: eval_nat_numeral)
  from prediction_step_residual [OF cover measured rows columns]
  have a: "launch 1 128 (reconstruct_ista_prediction_step [1, 2] [1, 2, 3]
        [[1, 0, 1], [0, 1, 0]]) [7, 9] = [3, 0]"
    and b: "\<And>other. length other = length [7, 9 :: real] \<Longrightarrow>
      launch 1 128 (reconstruct_ista_prediction_step [1, 2] [1, 2, 3]
        [[1, 0, 1], [0, 1, 0]]) other
      = launch 1 128 (reconstruct_ista_prediction_step [1, 2] [1, 2, 3]
        [[1, 0, 1], [0, 1, 0]]) [7, 9]"
    by (simp_all add: sum3 idx)
  have "launch 1 128 (reconstruct_ista_prediction_step [1, 2] [1, 2, 3]
        [[1, 0, 1], [0, 1, 0]]) [0, 0] = [3, 0]"
    using b [of "[0, 0]"] a by simp
  with a show ?thesis by simp
qed


section \<open>Running the iterations\<close>

subsection \<open>The loop and the iterates of its body\<close>

lemma py_while_skip:
  assumes "\<And>k. k < n \<Longrightarrow> continue ((body ^^ k) s)"
  shows "py_while continue body s = py_while continue body ((body ^^ n) s)"
  using assms
proof (induction n)
  case 0
  show ?case by simp
next
  case (Suc n)
  have "py_while continue body s = py_while continue body ((body ^^ n) s)"
    using Suc by simp
  also have "\<dots> = py_while continue body (body ((body ^^ n) s))"
    using Suc.prems [of n] by (subst py_while.simps) simp
  finally show ?case by simp
qed

lemma py_while_stops:
  assumes "\<And>k. k < n \<Longrightarrow> continue ((body ^^ k) s)" and "\<not> continue ((body ^^ n) s)"
  shows "py_while continue body s = Some ((body ^^ n) s)"
proof -
  have "py_while continue body s = py_while continue body ((body ^^ n) s)"
    using assms(1) by (rule py_while_skip)
  also have "\<dots> = Some ((body ^^ n) s)"
    using assms(2) by (subst py_while.simps) simp
  finally show ?thesis .
qed

lemma py_while_returns:
  assumes "py_while continue body s = Some s'"
  shows "\<exists>n. s' = (body ^^ n) s \<and> \<not> continue ((body ^^ n) s)
           \<and> (\<forall>k<n. continue ((body ^^ k) s))"
proof (rule py_while.raw_induct
    [where P = "\<lambda>c b x y. \<exists>n. y = (b ^^ n) x \<and> \<not> c ((b ^^ n) x) \<and> (\<forall>k<n. c ((b ^^ k) x))",
      OF _ assms])
  fix loop :: "('a \<Rightarrow> bool) \<Rightarrow> ('a \<Rightarrow> 'a) \<Rightarrow> 'a \<Rightarrow> 'a option"
  fix c b x y
  assume IH: "\<And>c b x y. loop c b x = Some y \<Longrightarrow>
      \<exists>n. y = (b ^^ n) x \<and> \<not> c ((b ^^ n) x) \<and> (\<forall>k<n. c ((b ^^ k) x))"
    and step: "(if c x then loop c b (b x) else Some x) = Some y"
  show "\<exists>n. y = (b ^^ n) x \<and> \<not> c ((b ^^ n) x) \<and> (\<forall>k<n. c ((b ^^ k) x))"
  proof (cases "c x")
    case False
    then have "y = x" using step by simp
    with False have "y = (b ^^ 0) x \<and> \<not> c ((b ^^ 0) x) \<and> (\<forall>k<0. c ((b ^^ k) x))"
      by simp
    then show ?thesis ..
  next
    case True
    then have "loop c b (b x) = Some y" using step by simp
    from IH [OF this] obtain n where n: "y = (b ^^ n) (b x)"
      "\<not> c ((b ^^ n) (b x))" "\<forall>k<n. c ((b ^^ k) (b x))"
      by blast
    have "c ((b ^^ k) x)" if "k < Suc n" for k
    proof (cases k)
      case 0
      with True show ?thesis by simp
    next
      case (Suc j)
      with that n(3) show ?thesis by (simp add: funpow_swap1)
    qed
    with n(1,2) have "y = (b ^^ Suc n) x \<and> \<not> c ((b ^^ Suc n) x)
        \<and> (\<forall>k<Suc n. c ((b ^^ k) x))"
      by (simp add: funpow_swap1)
    then show ?thesis ..
  qed
qed

lemma py_while_Some_iff:
  "py_while continue body s = Some s' \<longleftrightarrow>
     (\<exists>n. s' = (body ^^ n) s \<and> \<not> continue ((body ^^ n) s)
          \<and> (\<forall>k<n. continue ((body ^^ k) s)))"
proof
  assume "py_while continue body s = Some s'"
  then show "\<exists>n. s' = (body ^^ n) s \<and> \<not> continue ((body ^^ n) s)
      \<and> (\<forall>k<n. continue ((body ^^ k) s))"
    by (rule py_while_returns)
next
  assume "\<exists>n. s' = (body ^^ n) s \<and> \<not> continue ((body ^^ n) s)
      \<and> (\<forall>k<n. continue ((body ^^ k) s))"
  then obtain n where "s' = (body ^^ n) s" "\<not> continue ((body ^^ n) s)"
    "\<forall>k<n. continue ((body ^^ k) s)" by blast
  then show "py_while continue body s = Some s'"
    using py_while_stops [of n continue body s] by simp
qed

lemma py_while_None_iff:
  "py_while continue body s = None \<longleftrightarrow> (\<forall>n. continue ((body ^^ n) s))"
proof
  assume none: "py_while continue body s = None"
  show "\<forall>n. continue ((body ^^ n) s)"
  proof (rule ccontr)
    assume "\<not> (\<forall>n. continue ((body ^^ n) s))"
    then have ex: "\<exists>n. \<not> continue ((body ^^ n) s)" by blast
    define m where "m = (LEAST n. \<not> continue ((body ^^ n) s))"
    have stop: "\<not> continue ((body ^^ m) s)"
      unfolding m_def using ex by (rule LeastI_ex)
    have before: "continue ((body ^^ k) s)" if "k < m" for k
      using that not_less_Least [of k "\<lambda>n. \<not> continue ((body ^^ n) s)"]
      unfolding m_def by blast
    have "py_while continue body s = Some ((body ^^ m) s)"
      using before stop by (rule py_while_stops)
    then show False unfolding none by (rule option.distinct(1) [THEN notE])
  qed
next
  assume all: "\<forall>n. continue ((body ^^ n) s)"
  show "py_while continue body s = None"
  proof (rule ccontr)
    assume "py_while continue body s \<noteq> None"
    then obtain s' where "py_while continue body s = Some s'" by blast
    then have "\<exists>n. s' = (body ^^ n) s \<and> \<not> continue ((body ^^ n) s)
        \<and> (\<forall>k<n. continue ((body ^^ k) s))"
      by (rule py_while_returns)
    then obtain n where "\<not> continue ((body ^^ n) s)" by blast
    moreover have "continue ((body ^^ n) s)" using all by (rule spec)
    ultimately show False by (rule notE)
  qed
qed

subsection \<open>The convergence test\<close>

lemma foldl_add_sum_list:
  fixes a :: real
  shows "foldl (+) a xs = a + sum_list xs"
  by (induction xs arbitrary: a) simp_all

lemma py_sum_sum_list: "py_sum xs = sum_list xs"
  by (simp add: py_sum_def foldl_add_sum_list)

lemma not_converged_sum:
  "not_converged w \<longleftrightarrow>
     (\<Sum>(a, p)\<leftarrow>zip (v_amplitude w) (v_amplitude_previous w). (a - p) ^ 2) > 1"
proof -
  have "np_square (np_sub (v_amplitude w) (v_amplitude_previous w))
      = map (\<lambda>(a, p). (a - p) ^ 2) (zip (v_amplitude w) (v_amplitude_previous w))"
    by (simp add: np_square_def np_sub_def split_def)
  then show ?thesis
    by (simp add: not_converged_def py_sum_sum_list)
qed

lemma np_scale_one: "np_scale 1 a = a"
  by (induction a) (simp_all add: np_scale_def)

lemma fista_iteration_previous:
  "v_amplitude_previous (fista_iteration ss sm bt bf w) = v_amplitude w"
  by (simp add: fista_iteration_def Let_def split_def np_scale_one)

lemma naive_ista_iteration_previous:
  "v_amplitude_previous (naive_ista_iteration ss sm bt bf w) = v_amplitude w"
  by (simp add: naive_ista_iteration_def Let_def np_scale_one)


section \<open>The operator builders\<close>

lemma fold_column_cells:
  fixes step :: "nat \<Rightarrow> 'a \<times> real list list \<Rightarrow> 'a \<times> real list list"
  assumes step: "\<And>f s. snd (step f s) = (snd s)[f := (snd s ! f)[t := E f]]"
  shows "i \<le> length (snd s) \<Longrightarrow>
    snd (fold step [0..<i] s)
      = map (\<lambda>f. if f < i then (snd s ! f)[t := E f] else snd s ! f) [0..<length (snd s)]"
proof (induction i)
  case 0
  show ?case by (simp add: map_nth)
next
  case (Suc i)
  let ?m = "map (\<lambda>f. if f < i then (snd s ! f)[t := E f] else snd s ! f) [0..<length (snd s)]"
  have i: "i < length (snd s)" using Suc.prems by simp
  have prev: "snd (fold step [0..<i] s) = ?m" using Suc by simp
  have "snd (fold step [0..<Suc i] s) = snd (step i (fold step [0..<i] s))"
    by simp
  also have "\<dots> = ?m[i := (?m ! i)[t := E i]]"
    by (simp only: step prev)
  also have "\<dots> = map (\<lambda>f. if f < Suc i then (snd s ! f)[t := E f] else snd s ! f)
      [0..<length (snd s)]"
    using i by (auto intro!: nth_equalityI simp: nth_list_update less_Suc_eq)
  finally show ?case .
qed

lemma fold_seed_cell:
  fixes a fa :: "real list" and m :: "real list list" and t :: nat and c :: real
    and E :: "nat \<Rightarrow> real"
  defines "step \<equiv> \<lambda>f (amplitude, fourier_transform).
      let fourier_transform' = fourier_transform[f := (fourier_transform ! f)[t := E f]]
      in (amplitude[t := amplitude ! t + 2 * fourier_transform' ! f ! t * c * fa ! f],
          fourier_transform')"
  assumes t: "t < length a" and rows: "\<And>f. f < length m \<Longrightarrow> t < length (m ! f)"
  shows "i \<le> length m \<Longrightarrow>
    fst (fold step [0..<i] (a, m)) = a[t := a ! t + (\<Sum>f<i. 2 * E f * c * fa ! f)]"
proof (induction i)
  case 0
  show ?case by simp
next
  case (Suc i)
  have i: "i < length m" using Suc.prems by simp
  have snd_step: "\<And>f s. snd (step f s) = (snd s)[f := (snd s ! f)[t := E f]]"
    by (simp add: step_def split_def Let_def)
  have fst_step: "\<And>f s. fst (step f s)
      = (fst s)[t := fst s ! t + 2 * (snd s)[f := (snd s ! f)[t := E f]] ! f ! t * c * fa ! f]"
    by (simp add: step_def split_def Let_def)
  let ?s = "fold step [0..<i] (a, m)"
  have "snd ?s = map (\<lambda>f. if f < i then (snd (a, m) ! f)[t := E f] else snd (a, m) ! f)
      [0..<length (snd (a, m))]"
    using i by (intro fold_column_cells [OF snd_step]) simp
  then have m: "snd ?s = map (\<lambda>f. if f < i then (m ! f)[t := E f] else m ! f) [0..<length m]"
    by simp
  have cell: "(snd ?s)[i := (snd ?s ! i)[t := E i]] ! i ! t = E i"
    using i rows [OF i] by (simp add: m)
  have a: "fst ?s = a[t := a ! t + (\<Sum>f<i. 2 * E f * c * fa ! f)]"
    using Suc by simp
  have "fst (fold step [0..<Suc i] (a, m)) = fst (step i ?s)"
    by simp
  also have "\<dots> = (fst ?s)[t := fst ?s ! t + 2 * E i * c * fa ! i]"
    by (simp only: fst_step cell)
  also have "\<dots> = a[t := a ! t + (\<Sum>f<Suc i. 2 * E f * c * fa ! f)]"
    using t by (simp add: a add.assoc)
  finally show ?case .
qed

lemma map_if_update:
  assumes "j < T"
  shows "(map (\<lambda>t. if t < j then g t else h t) [0..<T])[j := g j]
    = map (\<lambda>t. if t < Suc j then g t else h t) [0..<T]"
proof (rule nth_equalityI)
  show "length ((map (\<lambda>t. if t < j then g t else h t) [0..<T])[j := g j])
      = length (map (\<lambda>t. if t < Suc j then g t else h t) [0..<T])"
    by simp
next
  fix i assume "i < length ((map (\<lambda>t. if t < j then g t else h t) [0..<T])[j := g j])"
  then have i: "i < T" by simp
  show "(map (\<lambda>t. if t < j then g t else h t) [0..<T])[j := g j] ! i
      = map (\<lambda>t. if t < Suc j then g t else h t) [0..<T] ! i"
  proof (cases "i = j")
    case True
    with assms show ?thesis by simp
  next
    case False
    with i show ?thesis by (simp add: less_Suc_eq)
  qed
qed

lemma fold_columns:
  fixes thread :: "nat \<Rightarrow> real list \<times> real list list \<Rightarrow> real list \<times> real list list"
  assumes thread: "\<And>t a m. t < T \<Longrightarrow> length a = T \<Longrightarrow> length m = F \<Longrightarrow>
        (\<And>f. f < F \<Longrightarrow> length (m ! f) = T) \<Longrightarrow>
        thread t (a, m) = (a[t := S t], map (\<lambda>f. (m ! f)[t := EE f t]) [0..<F])"
    and a0: "length a0 = T" and m0: "length m0 = F"
    and rows: "\<And>f. f < F \<Longrightarrow> length (m0 ! f) = T"
  shows "j \<le> T \<Longrightarrow>
    fold thread [0..<j] (a0, m0)
      = (map (\<lambda>t. if t < j then S t else a0 ! t) [0..<T],
         map (\<lambda>f. map (\<lambda>t. if t < j then EE f t else m0 ! f ! t) [0..<T]) [0..<F])"
proof (induction j)
  case 0
  have "map (\<lambda>t. a0 ! t) [0..<length a0] = a0"
    by (rule map_nth)
  then have a: "map (\<lambda>t. a0 ! t) [0..<T] = a0"
    by (simp only: a0)
  have "map (\<lambda>f. map (\<lambda>t. m0 ! f ! t) [0..<T]) [0..<F] = map (\<lambda>f. m0 ! f) [0..<F]"
  proof (rule map_cong [OF refl])
    fix f assume "f \<in> set [0..<F]"
    then have f: "f < F" by simp
    have "map (\<lambda>t. m0 ! f ! t) [0..<length (m0 ! f)] = m0 ! f"
      by (rule map_nth)
    then show "map (\<lambda>t. m0 ! f ! t) [0..<T] = m0 ! f"
      by (simp only: rows [OF f])
  qed
  also have "\<dots> = map (\<lambda>f. m0 ! f) [0..<length m0]"
    by (simp only: m0)
  also have "\<dots> = m0"
    by (rule map_nth)
  finally have m: "map (\<lambda>f. map (\<lambda>t. m0 ! f ! t) [0..<T]) [0..<F] = m0" .
  show ?case by (simp add: a m)
next
  case (Suc j)
  let ?a = "map (\<lambda>t. if t < j then S t else a0 ! t) [0..<T]"
  let ?m = "map (\<lambda>f. map (\<lambda>t. if t < j then EE f t else m0 ! f ! t) [0..<T]) [0..<F]"
  have j: "j < T" using Suc.prems by simp
  have "fold thread [0..<Suc j] (a0, m0) = thread j (?a, ?m)"
    using Suc by simp
  also have "\<dots> = (?a[j := S j], map (\<lambda>f. (?m ! f)[j := EE f j]) [0..<F])"
    by (rule thread [OF j]) simp_all
  also have "?a[j := S j] = map (\<lambda>t. if t < Suc j then S t else a0 ! t) [0..<T]"
    using j by (rule map_if_update)
  also have "map (\<lambda>f. (?m ! f)[j := EE f j]) [0..<F]
      = map (\<lambda>f. map (\<lambda>t. if t < Suc j then EE f t else m0 ! f ! t) [0..<T]) [0..<F]"
  proof (rule map_cong [OF refl])
    fix f assume "f \<in> set [0..<F]"
    then have f: "f < F" by simp
    have "(map (\<lambda>t. if t < j then EE f t else m0 ! f ! t) [0..<T])[j := EE f j]
        = map (\<lambda>t. if t < Suc j then EE f t else m0 ! f ! t) [0..<T]"
      using j by (rule map_if_update)
    moreover have "?m ! f = map (\<lambda>t. if t < j then EE f t else m0 ! f ! t) [0..<T]"
      using f by simp
    ultimately show "(?m ! f)[j := EE f j]
        = map (\<lambda>t. if t < Suc j then EE f t else m0 ! f ! t) [0..<T]"
      by (simp only:)
  qed
  finally show ?case .
qed

lemma launch_columns:
  fixes thread :: "nat \<Rightarrow> real list \<times> real list list \<Rightarrow> real list \<times> real list list"
  assumes thread: "\<And>t a m. t < T \<Longrightarrow> length a = T \<Longrightarrow> length m = F \<Longrightarrow>
        (\<And>f. f < F \<Longrightarrow> length (m ! f) = T) \<Longrightarrow>
        thread t (a, m) = (a[t := S t], map (\<lambda>f. (m ! f)[t := EE f t]) [0..<F])"
    and idle: "\<And>t s. T \<le> t \<Longrightarrow> thread t s = s"
    and a0: "length a0 = T" and m0: "length m0 = F"
    and rows: "\<And>f. f < F \<Longrightarrow> length (m0 ! f) = T"
    and cover: "T \<le> blocks * tpb"
  shows "launch blocks tpb thread (a0, m0)
      = (map S [0..<T], map (\<lambda>f. map (EE f) [0..<T]) [0..<F])"
proof -
  let ?r = "(map S [0..<T], map (\<lambda>f. map (EE f) [0..<T]) [0..<F])"
  obtain k where k: "blocks * tpb = T + k"
    using cover by (auto simp: le_iff_add)
  have "[0..<blocks * tpb] = [0..<T] @ [T..<T + k]"
    unfolding k by (simp only: upt_add_eq_append [OF le0])
  then have "launch blocks tpb thread (a0, m0)
      = fold thread [T..<T + k] (fold thread [0..<T] (a0, m0))"
    by (simp only: launch_def fold_append comp_apply)
  also have "fold thread [0..<T] (a0, m0) = ?r"
  proof -
    have "fold thread [0..<T] (a0, m0)
        = (map (\<lambda>t. if t < T then S t else a0 ! t) [0..<T],
           map (\<lambda>f. map (\<lambda>t. if t < T then EE f t else m0 ! f ! t) [0..<T]) [0..<F])"
      by (rule fold_columns [of T F thread S EE a0 m0 T, OF thread a0 m0 rows le_refl])
    moreover have "map (\<lambda>t. if t < T then g t else h t) [0..<T] = map g [0..<T]"
      for g h :: "nat \<Rightarrow> real"
      by (rule map_cong [OF refl]) simp
    ultimately show ?thesis by (simp only:)
  qed
  also have "fold thread [T..<T + k] ?r = ?r"
    by (rule fold_idle_threads) (rule idle)
  finally show ?thesis .
qed

lemma initialisation_thread:
  fixes time_step_coarse :: real
  defines "E \<equiv> \<lambda>frequency time_coarse f t.
      sin (2 * pi * frequency ! f * time_coarse ! t) * time_step_coarse
        / time_coarse ! (length time_coarse - 1)"
  assumes t: "t < length time_coarse" and a: "length a = length time_coarse"
    and m: "length m = length frequency"
    and rows: "\<And>f. f < length frequency \<Longrightarrow> length (m ! f) = length time_coarse"
  shows "reconstruct_ista_initialisation_step frequency frequency_amplitude time_step_coarse
           time_coarse t (a, m)
    = (a[t := (\<Sum>f<length frequency. 2 * E frequency time_coarse f t
                 * (time_coarse ! (length time_coarse - 1) / time_step_coarse)
                 * frequency_amplitude ! f)],
       map (\<lambda>f. (m ! f)[t := E frequency time_coarse f t]) [0..<length frequency])"
proof -
  let ?c = "time_coarse ! (length time_coarse - 1) / time_step_coarse"
  let ?E = "\<lambda>f. E frequency time_coarse f t"
  let ?step = "\<lambda>f (amplitude, fourier_transform).
      let fourier_transform' = fourier_transform[f := (fourier_transform ! f)[t := ?E f]]
      in (amplitude[t := amplitude ! t + 2 * fourier_transform' ! f ! t * ?c
            * frequency_amplitude ! f],
          fourier_transform')"
  let ?s = "fold ?step [0..<length frequency] (a[t := 0], m)"
  have run: "reconstruct_ista_initialisation_step frequency frequency_amplitude
      time_step_coarse time_coarse t (a, m) = ?s"
    using t by (simp add: reconstruct_ista_initialisation_step_def E_def)
  have t': "t < length (a[t := 0])" using t a by simp
  have rows': "\<And>f. f < length m \<Longrightarrow> t < length (m ! f)"
    using rows t m by simp
  have "fst ?s = (a[t := 0])[t := (a[t := 0]) ! t
      + (\<Sum>f<length frequency. 2 * ?E f * ?c * frequency_amplitude ! f)]"
    by (rule fold_seed_cell [OF t' rows']) (simp_all add: m)
  then have 1: "fst ?s = a[t := (\<Sum>f<length frequency. 2 * ?E f * ?c * frequency_amplitude ! f)]"
    using t a by simp
  have "snd ?s = map (\<lambda>f. if f < length frequency then (snd (a[t := 0], m) ! f)[t := ?E f]
      else snd (a[t := 0], m) ! f) [0..<length (snd (a[t := 0], m))]"
    by (rule fold_column_cells) (simp_all add: split_def Let_def m)
  also have "\<dots> = map (\<lambda>f. (m ! f)[t := ?E f]) [0..<length frequency]"
    unfolding snd_conv m by (rule map_cong [OF refl]) simp
  finally have 2: "snd ?s = map (\<lambda>f. (m ! f)[t := ?E f]) [0..<length frequency]" .
  show ?thesis
    unfolding run by (rule prod_eqI) (simp_all only: 1 2 fst_conv snd_conv)
qed

lemma initialisation_launch:
  fixes time_step_coarse :: real
  assumes a: "length a = length time_coarse" and m: "length m = length frequency"
    and rows: "\<And>f. f < length frequency \<Longrightarrow> length (m ! f) = length time_coarse"
    and cover: "length time_coarse \<le> blocks * tpb"
  shows "launch blocks tpb
           (reconstruct_ista_initialisation_step frequency frequency_amplitude time_step_coarse
              time_coarse) (a, m)
    = (map (\<lambda>t. \<Sum>f<length frequency.
              2 * (sin (2 * pi * frequency ! f * time_coarse ! t) * time_step_coarse
                     / time_coarse ! (length time_coarse - 1))
                * (time_coarse ! (length time_coarse - 1) / time_step_coarse)
                * frequency_amplitude ! f) [0..<length time_coarse],
       map (\<lambda>f. map (\<lambda>t. sin (2 * pi * frequency ! f * time_coarse ! t) * time_step_coarse
                             / time_coarse ! (length time_coarse - 1))
                  [0..<length time_coarse]) [0..<length frequency])"
proof (rule launch_columns [OF _ _ a m rows cover])
  fix t and a' :: "real list" and m' :: "real list list"
  assume "t < length time_coarse" "length a' = length time_coarse"
    "length m' = length frequency"
    "\<And>f. f < length frequency \<Longrightarrow> length (m' ! f) = length time_coarse"
  then show "reconstruct_ista_initialisation_step frequency frequency_amplitude
      time_step_coarse time_coarse t (a', m')
    = (a'[t := \<Sum>f<length frequency.
              2 * (sin (2 * pi * frequency ! f * time_coarse ! t) * time_step_coarse
                     / time_coarse ! (length time_coarse - 1))
                * (time_coarse ! (length time_coarse - 1) / time_step_coarse)
                * frequency_amplitude ! f],
       map (\<lambda>f. (m' ! f)[t := sin (2 * pi * frequency ! f * time_coarse ! t)
            * time_step_coarse / time_coarse ! (length time_coarse - 1)])
         [0..<length frequency])"
    by (rule initialisation_thread)
next
  fix t and s :: "real list \<times> real list list"
  assume "length time_coarse \<le> t"
  then show "reconstruct_ista_initialisation_step frequency frequency_amplitude
      time_step_coarse time_coarse t s = s"
    by (simp add: reconstruct_ista_initialisation_step_def)
qed

lemma fold_keeps_fst:
  assumes "\<And>f s. fst (step f s) = fst s"
  shows "fst (fold step fs s) = fst s"
  using assms by (induction fs arbitrary: s) simp_all

lemma complete_initialise_thread:
  fixes time_step_coarse :: real
  assumes t: "t < length time_coarse" and a: "length a = length time_coarse"
    and m: "length m = length frequency"
    and rows: "\<And>f. f < length frequency \<Longrightarrow> length (m ! f) = length time_coarse"
  shows "reconstruct_ista_complete_initialise frequency time_step_coarse time_coarse t (a, m)
    = (a[t := 0],
       map (\<lambda>f. (m ! f)[t := sin (2 * pi * frequency ! f * time_coarse ! t) * time_step_coarse
              / (time_coarse ! (length time_coarse - 1) - time_coarse ! 0)])
         [0..<length frequency])"
proof -
  let ?E = "\<lambda>f. sin (2 * pi * frequency ! f * time_coarse ! t) * time_step_coarse
      / (time_coarse ! (length time_coarse - 1) - time_coarse ! 0)"
  let ?step = "\<lambda>f (amplitude :: real list, fourier_transform).
      (amplitude, fourier_transform[f := (fourier_transform ! f)[t := ?E f]])"
  let ?s = "fold ?step [0..<length frequency] (a[t := 0], m)"
  have run: "reconstruct_ista_complete_initialise frequency time_step_coarse time_coarse t (a, m)
      = ?s"
    using t by (simp add: reconstruct_ista_complete_initialise_def)
  have "fst ?s = fst (a[t := 0], m)"
    by (rule fold_keeps_fst) (simp add: split_def)
  then have 1: "fst ?s = a[t := 0]" by simp
  have "snd ?s = map (\<lambda>f. if f < length frequency then (snd (a[t := 0], m) ! f)[t := ?E f]
      else snd (a[t := 0], m) ! f) [0..<length (snd (a[t := 0], m))]"
    by (rule fold_column_cells) (simp_all add: split_def m)
  also have "\<dots> = map (\<lambda>f. (m ! f)[t := ?E f]) [0..<length frequency]"
    unfolding snd_conv m by (rule map_cong [OF refl]) simp
  finally have 2: "snd ?s = map (\<lambda>f. (m ! f)[t := ?E f]) [0..<length frequency]" .
  show ?thesis
    unfolding run by (rule prod_eqI) (simp_all only: 1 2 fst_conv snd_conv)
qed

lemma complete_initialise_launch:
  fixes time_step_coarse :: real
  assumes a: "length a = length time_coarse" and m: "length m = length frequency"
    and rows: "\<And>f. f < length frequency \<Longrightarrow> length (m ! f) = length time_coarse"
    and cover: "length time_coarse \<le> blocks * tpb"
  shows "launch blocks tpb
           (reconstruct_ista_complete_initialise frequency time_step_coarse time_coarse) (a, m)
    = (map (\<lambda>t. 0) [0..<length time_coarse],
       map (\<lambda>f. map (\<lambda>t. sin (2 * pi * frequency ! f * time_coarse ! t) * time_step_coarse
                             / (time_coarse ! (length time_coarse - 1) - time_coarse ! 0))
                  [0..<length time_coarse]) [0..<length frequency])"
proof (rule launch_columns [OF _ _ a m rows cover])
  fix t and a' :: "real list" and m' :: "real list list"
  assume "t < length time_coarse" "length a' = length time_coarse"
    "length m' = length frequency"
    "\<And>f. f < length frequency \<Longrightarrow> length (m' ! f) = length time_coarse"
  then show "reconstruct_ista_complete_initialise frequency time_step_coarse time_coarse t
      (a', m')
    = (a'[t := 0],
       map (\<lambda>f. (m' ! f)[t := sin (2 * pi * frequency ! f * time_coarse ! t)
            * time_step_coarse / (time_coarse ! (length time_coarse - 1) - time_coarse ! 0)])
         [0..<length frequency])"
    by (rule complete_initialise_thread)
next
  fix t and s :: "real list \<times> real list list"
  assume "length time_coarse \<le> t"
  then show "reconstruct_ista_complete_initialise frequency time_step_coarse time_coarse t s = s"
    by (simp add: reconstruct_ista_complete_initialise_def)
qed

lemma np_empty_shapes:
  "length (np_empty ea T) = T" "length (np_empty2 et F T) = F"
  "f < F \<Longrightarrow> length (np_empty2 et F T ! f) = T"
  by (simp_all add: np_empty_def np_empty2_def)

lemma initialisation_operator_entry:
  fixes time_step_coarse :: real
  assumes "f < length frequency" and "t < length time_coarse"
  shows "snd (launch (blocksPer_grid (length time_coarse)) threads_per_block
           (reconstruct_ista_initialisation_step frequency frequency_amplitude time_step_coarse
              time_coarse)
           (np_empty ea (length time_coarse),
            np_empty2 et (length frequency) (length time_coarse))) ! f ! t
    = sin (2 * pi * frequency ! f * time_coarse ! t) * time_step_coarse
        / time_coarse ! (length time_coarse - 1)"
  using assms
  by (simp add: initialisation_launch [OF np_empty_shapes blocksPer_grid_cover])

lemma complete_initialise_operator_entry:
  fixes time_step_coarse :: real
  assumes "f < length frequency" and "t < length time_coarse"
  shows "snd (launch (blocksPer_grid (length time_coarse)) threads_per_block
           (reconstruct_ista_complete_initialise frequency time_step_coarse time_coarse)
           (np_empty ea (length time_coarse),
            np_empty2 et (length frequency) (length time_coarse))) ! f ! t
    = sin (2 * pi * frequency ! f * time_coarse ! t) * time_step_coarse
        / (time_coarse ! (length time_coarse - 1) - time_coarse ! 0)"
  using assms
  by (simp add: complete_initialise_launch [OF np_empty_shapes blocksPer_grid_cover])

text \<open>
  C4. For every frequency index \<open>f\<close> and time index \<open>t\<close> the constructed operator has
  entry \<open>sin (2 \<pi> frequency\<^sub>f time\<^sub>t) * \<Delta>t / T\<close> with \<open>T\<close> the grid span, the last
  sample time minus the first. The construction at the head of
  \<^verbatim>\<open>reconstruct_ista_complete\<close> divides by the span; the kernel of the FISTA driver,
  \<^verbatim>\<open>reconstruct_ista_initialisation_step\<close>, divides by the last sample time alone.
  On the grid \<open>[1, 2]\<close> with step 1 and the frequency \<open>1/4\<close> the claimed entry \<open>(0, 0)\<close>
  is \<open>sin (\<pi>/2) * 1 / (2 - 1) = 1\<close>; the first construction writes 1 and the FISTA
  kernel writes \<open>1/2\<close>.
\<close>

theorem initialisation_step_divides_by_last_time:
  "snd (launch (blocksPer_grid 2) threads_per_block
          (reconstruct_ista_initialisation_step [1/4] [0] 1 [1, 2])
          (np_empty (\<lambda>i. 7) 2, np_empty2 (\<lambda>f t. 7) 1 2)) ! 0 ! 0 = 1/2
   \<and> snd (launch (blocksPer_grid 2) threads_per_block
          (reconstruct_ista_complete_initialise [1/4] 1 [1, 2])
          (np_empty (\<lambda>i. 7) 2, np_empty2 (\<lambda>f t. 7) 1 2)) ! 0 ! 0 = 1
   \<and> sin (2 * pi * [1/4] ! 0 * [1, 2] ! 0) * 1 / ([1, 2 :: real] ! (length [1, 2 :: real] - 1) - [1, 2] ! 0)
       = (1 :: real)"
proof -
  have f: "0 < length [1/4 :: real]" and t: "0 < length [1, 2 :: real]" by simp_all
  have len: "length [1, 2 :: real] = 2" "length [1/4 :: real] = 1" by simp_all
  have quarter: "sin (2 * pi * (1/4) * 1) = 1" by simp
  have 1: "snd (launch (blocksPer_grid 2) threads_per_block
          (reconstruct_ista_initialisation_step [1/4] [0] 1 [1, 2])
          (np_empty (\<lambda>i. 7) 2, np_empty2 (\<lambda>f t. 7) 1 2)) ! 0 ! 0 = 1/2"
    using initialisation_operator_entry [OF f t, of "[0]" 1 "\<lambda>i. 7" "\<lambda>f t. 7"]
    unfolding len by simp
  have 2: "snd (launch (blocksPer_grid 2) threads_per_block
          (reconstruct_ista_complete_initialise [1/4] 1 [1, 2])
          (np_empty (\<lambda>i. 7) 2, np_empty2 (\<lambda>f t. 7) 1 2)) ! 0 ! 0 = 1"
    using complete_initialise_operator_entry [OF f t, of 1 "\<lambda>i. 7" "\<lambda>f t. 7"]
    unfolding len by simp
  have 3: "sin (2 * pi * [1/4] ! 0 * [1, 2] ! 0) * 1
      / ([1, 2 :: real] ! (length [1, 2 :: real] - 1) - [1, 2] ! 0) = (1 :: real)"
    by simp
  from 1 2 3 show ?thesis by (intro conjI)
qed


section \<open>Runs of the FISTA driver\<close>

subsection \<open>The seed\<close>

lemma np_sub_zero: "np_sub a (np_scale 0 a) = a"
  by (induction a) (simp_all add: np_sub_def np_scale_def)

lemma fista_start_fields:
  fixes time_step_coarse :: real
  defines "init \<equiv> \<lambda>ea et time_coarse frequency frequency_amplitude.
      launch (blocksPer_grid (length time_coarse)) threads_per_block
        (reconstruct_ista_initialisation_step frequency frequency_amplitude time_step_coarse
           time_coarse)
        (np_empty ea (length time_coarse),
         np_empty2 et (length frequency) (length time_coarse))"
    and "w \<equiv> \<lambda>ea ep et time_coarse frequency frequency_amplitude.
      fista_start ea ep et time_coarse time_step_coarse frequency frequency_amplitude"
  shows "v_amplitude (w ea ep et time_coarse frequency frequency_amplitude)
      = fst (init ea et time_coarse frequency frequency_amplitude)"
    and "v_amplitude_previous (w ea ep et time_coarse frequency frequency_amplitude)
      = np_scale 0 (fst (init ea et time_coarse frequency frequency_amplitude))"
    and "v_fourier_transform (w ea ep et time_coarse frequency frequency_amplitude)
      = snd (init ea et time_coarse frequency frequency_amplitude)"
    and "v_time_coarse (w ea ep et time_coarse frequency frequency_amplitude) = time_coarse"
    and "v_frequency (w ea ep et time_coarse frequency frequency_amplitude) = frequency"
    and "v_frequency_amplitude (w ea ep et time_coarse frequency frequency_amplitude)
      = frequency_amplitude"
  by (simp_all add: w_def init_def fista_start_def Let_def split_def)

lemma fista_start_converged:
  "not_converged (fista_start ea ep et time_coarse time_step_coarse frequency
      frequency_amplitude)
   \<longleftrightarrow> (\<Sum>x\<leftarrow>v_amplitude (fista_start ea ep et time_coarse time_step_coarse frequency
           frequency_amplitude). x ^ 2) > 1"
  by (simp add: not_converged_def fista_start_fields np_sub_zero py_sum_sum_list np_square_def)

text \<open>
  C10. If the adjoint-estimate seed that the initialisation step produces has a sum of
  squared entries of at most 1.0, the FISTA driver executes no loop iteration (the loop
  returns the state it starts from) and the final reconstructed amplitude is that seed.
\<close>

theorem fista_small_seed_is_result:
  fixes ea ep :: "nat \<Rightarrow> real" and et :: "nat \<Rightarrow> nat \<Rightarrow> real" and self :: reconstruction
  defines "seed \<equiv> \<lambda>frequency frequency_amplitude.
      fst (launch (blocksPer_grid (length (self_time_coarse self))) threads_per_block
        (reconstruct_ista_initialisation_step frequency frequency_amplitude
           (self_time_step_coarse self) (self_time_coarse self))
        (np_empty ea (length (self_time_coarse self)),
         np_empty2 et (length frequency) (length (self_time_coarse self))))"
    and "start \<equiv> \<lambda>frequency frequency_amplitude.
      fista_start ea ep et (self_time_coarse self) (self_time_step_coarse self)
        frequency frequency_amplitude"
  assumes "self_frequency self = Some frequency"
    and "self_frequency_amplitude self = Some frequency_amplitude"
    and "(\<Sum>x\<leftarrow>seed frequency frequency_amplitude. x ^ 2) \<le> 1"
  shows "py_while not_converged
           (fista_iteration (self_step_size_sparse self) (self_step_size_manifold self)
              (blocksPer_grid (length (self_time_coarse self)))
              (blocksPer_grid (length frequency)))
           (start frequency frequency_amplitude)
         = Some (start frequency frequency_amplitude)
       \<and> evaluate_fista ea ep et self
         = Some (None, self\<lparr>self_amplitude := Some (seed frequency frequency_amplitude)\<rparr>)"
proof -
  let ?w = "start frequency frequency_amplitude"
  have seed: "v_amplitude ?w = seed frequency frequency_amplitude"
    by (simp add: start_def seed_def fista_start_fields)
  have stop: "\<not> not_converged ?w"
    using assms(5) unfolding start_def fista_start_converged seed [unfolded start_def]
    by simp
  have loop: "py_while not_converged
           (fista_iteration (self_step_size_sparse self) (self_step_size_manifold self)
              (blocksPer_grid (length (self_time_coarse self)))
              (blocksPer_grid (length frequency))) ?w = Some ?w"
    using stop by (subst py_while.simps) simp
  have "evaluate_fista ea ep et self = Some (None, self\<lparr>self_amplitude := Some (v_amplitude ?w)\<rparr>)"
    using loop assms(3,4) unfolding start_def by (simp add: evaluate_fista_def Let_def)
  with loop seed show ?thesis by simp
qed

lemma initialisation_seed:
  fixes time_step_coarse :: real
  assumes "T = length time_coarse" and "F = length frequency"
  shows "fst (launch (blocksPer_grid T) threads_per_block
           (reconstruct_ista_initialisation_step frequency frequency_amplitude time_step_coarse
              time_coarse)
           (np_empty ea T, np_empty2 et F T))
    = map (\<lambda>t. \<Sum>f<F.
              2 * (sin (2 * pi * frequency ! f * time_coarse ! t) * time_step_coarse
                     / time_coarse ! (T - 1))
                * (time_coarse ! (T - 1) / time_step_coarse)
                * frequency_amplitude ! f) [0..<T]"
  unfolding assms
  by (simp add: initialisation_launch [OF np_empty_shapes blocksPer_grid_cover])

lemma seed_example:
  "fst (launch (blocksPer_grid (Suc (Suc 0))) threads_per_block
        (reconstruct_ista_initialisation_step [1/4] [1/4] 1 [0, 1])
        (np_empty (\<lambda>i. 7) (Suc (Suc 0)), np_empty2 (\<lambda>f t. 9) (Suc 0) (Suc (Suc 0))))
      = [0, 1/2]"
proof -
  have "fst (launch (blocksPer_grid (Suc (Suc 0))) threads_per_block
        (reconstruct_ista_initialisation_step [1/4] [1/4] 1 [0, 1])
        (np_empty (\<lambda>i. 7) (Suc (Suc 0)), np_empty2 (\<lambda>f t. 9) (Suc 0) (Suc (Suc 0))))
      = map (\<lambda>t. \<Sum>f<Suc 0.
              2 * (sin (2 * pi * [1/4] ! f * [0, 1] ! t) * 1
                     / [0, 1] ! (Suc (Suc 0) - 1))
                * ([0, 1] ! (Suc (Suc 0) - 1) / 1)
                * [1/4] ! f) [0..<Suc (Suc 0)]"
    by (rule initialisation_seed) simp_all
  also have "\<dots> = [0, 1/2]"
    by simp
  finally show ?thesis .
qed

theorem fista_small_seed_is_result_witness:
  "evaluate_fista (\<lambda>i. 7) (\<lambda>i. 8) (\<lambda>f t. 9)
     \<lparr>self_time_coarse = [0, 1], self_time_step_coarse = 1,
      self_frequency = Some [1/4], self_frequency_amplitude = Some [1/4],
      self_amplitude = None, self_step_size_sparse = 1/10,
      self_step_size_manifold = 100000\<rparr>
   = Some (None,
     \<lparr>self_time_coarse = [0, 1], self_time_step_coarse = 1,
      self_frequency = Some [1/4], self_frequency_amplitude = Some [1/4],
      self_amplitude = Some [0, 1/2], self_step_size_sparse = 1/10,
      self_step_size_manifold = 100000\<rparr>)"
proof -
  define self :: reconstruction where "self =
     \<lparr>self_time_coarse = [0, 1], self_time_step_coarse = 1,
      self_frequency = Some [1/4], self_frequency_amplitude = Some [1/4],
      self_amplitude = None, self_step_size_sparse = 1/10,
      self_step_size_manifold = 100000\<rparr>"
  have tc: "self_time_coarse self = [0, 1]" and dt: "self_time_step_coarse self = 1"
    and f: "self_frequency self = Some [1/4]"
    and a: "self_frequency_amplitude self = Some [1/4]"
    by (simp_all add: self_def)
  have len: "length [0, 1 :: real] = Suc (Suc 0)" "length [1/4 :: real] = Suc 0"
    by simp_all
  have small: "(\<Sum>x\<leftarrow>[0, 1/2 :: real]. x ^ 2) \<le> 1"
    by (simp add: power2_eq_square)
  note inst = fista_small_seed_is_result [of self "[1/4]" "[1/4]" "\<lambda>i. 7" "\<lambda>f t. 9"
      "\<lambda>i. 8", unfolded tc dt len seed_example, OF f a small]
  have "evaluate_fista (\<lambda>i. 7) (\<lambda>i. 8) (\<lambda>f t. 9) self
      = Some (None, self\<lparr>self_amplitude := Some [0, 1/2]\<rparr>)"
    by (rule inst [THEN conjunct2])
  then show ?thesis
    unfolding self_def by simp
qed

subsection \<open>What the iterations leave alone\<close>

lemma fista_iteration_frame: "same_inputs (fista_iteration ss sm bt bf w) w"
  by (simp add: same_inputs_def fista_iteration_def Let_def split_def)

lemma naive_ista_iteration_frame: "same_inputs (naive_ista_iteration ss sm bt bf w) w"
  by (simp add: same_inputs_def naive_ista_iteration_def Let_def)

lemma iterates_frame:
  assumes "\<And>w. same_inputs (body w) w"
  shows "same_inputs ((body ^^ n) w) w"
proof (induction n)
  case 0
  show ?case by (simp add: same_inputs_def)
next
  case (Suc n)
  have "same_inputs (body ((body ^^ n) w)) ((body ^^ n) w)" by (rule assms)
  with Suc show ?case by (simp add: same_inputs_def)
qed

lemma evaluate_fista_frame:
  "evaluate_fista ea ep et self = None
   \<or> (\<exists>r a. evaluate_fista ea ep et self = Some (r, self\<lparr>self_amplitude := a\<rparr>))"
proof (cases "self_frequency self")
  case None
  then have "evaluate_fista ea ep et self = Some (Some AttributeError,
      self\<lparr>self_amplitude := Some (np_empty ea (length (self_time_coarse self)))\<rparr>)"
    by (simp add: evaluate_fista_def Let_def)
  then show ?thesis by blast
next
  case f: (Some frequency)
  show ?thesis
  proof (cases "self_frequency_amplitude self")
    case None
    with f have "evaluate_fista ea ep et self = Some (Some TypingError,
        self\<lparr>self_amplitude := Some (np_empty ea (length (self_time_coarse self)))\<rparr>)"
      by (simp add: evaluate_fista_def Let_def)
    then show ?thesis by blast
  next
    case a: (Some frequency_amplitude)
    let ?loop = "py_while not_converged
       (fista_iteration (self_step_size_sparse self) (self_step_size_manifold self)
          (blocksPer_grid (length (self_time_coarse self)))
          (blocksPer_grid (length frequency)))
       (fista_start ea ep et (self_time_coarse self) (self_time_step_coarse self)
          frequency frequency_amplitude)"
    have run: "evaluate_fista ea ep et self
        = map_option (\<lambda>w. (None, self\<lparr>self_amplitude := Some (v_amplitude w)\<rparr>)) ?loop"
      using f a by (simp add: evaluate_fista_def Let_def)
    show ?thesis
    proof (cases ?loop)
      case None
      then show ?thesis unfolding run by simp
    next
      case (Some w)
      then have "evaluate_fista ea ep et self
          = Some (None, self\<lparr>self_amplitude := Some (v_amplitude w)\<rparr>)"
        unfolding run by simp
      then show ?thesis by blast
    qed
  qed
qed

text \<open>
  C9. Throughout a reconstruction run, once the operator is constructed, no iteration
  step (prediction, gradient or shrinkage) mutates the operator matrix, the measured
  frequency array, the measured frequency-amplitude array or the time grid; only the
  candidate signal and the residual buffer are written. After any number of iterations
  of either driver's loop body these four arrays are the ones the loop started with,
  and a run of \<^verbatim>\<open>evaluate_fista\<close> that returns leaves every attribute of the object
  but \<^verbatim>\<open>self.amplitude\<close> as it was.
\<close>

theorem iteration_steps_frame:
  "(\<forall>n. same_inputs ((fista_iteration ss sm bt bf ^^ n) w) w)
   \<and> (\<forall>n. same_inputs ((naive_ista_iteration ss sm bt bf ^^ n) w) w)
   \<and> (evaluate_fista ea ep et self = None
      \<or> (\<exists>r a. evaluate_fista ea ep et self = Some (r, self\<lparr>self_amplitude := a\<rparr>)))"
proof (intro conjI allI)
  fix n
  show "same_inputs ((fista_iteration ss sm bt bf ^^ n) w) w"
    by (rule iterates_frame) (rule fista_iteration_frame)
  show "same_inputs ((naive_ista_iteration ss sm bt bf ^^ n) w) w"
    by (rule iterates_frame) (rule naive_ista_iteration_frame)
next
  show "evaluate_fista ea ep et self = None
      \<or> (\<exists>r a. evaluate_fista ea ep et self = Some (r, self\<lparr>self_amplitude := a\<rparr>))"
    by (rule evaluate_fista_frame)
qed


section \<open>The FISTA iteration in closed form\<close>

subsection \<open>The three steps of an iteration\<close>

text \<open>
  On grids that cover the arrays the update of lines 127-129 is, cell by cell, the sparse
  step on the gradient step on the residual of the forward predictor.
\<close>

lemma ista_steps_closed_form:
  assumes time: "length (v_amplitude w) \<le> bt * threads_per_block"
    and freq: "length (v_frequency_amplitude_prediction w) \<le> bf * threads_per_block"
  shows "ista_steps ss sm bt bf w
    = (map (\<lambda>t. sparse_cell ss
        (v_amplitude w ! t
          - (\<Sum>f<length (v_frequency_amplitude_prediction w).
               v_fourier_transform w ! f ! t
                 * ((\<Sum>t'<length (v_amplitude w).
                       v_fourier_transform w ! f ! t' * v_amplitude w ! t')
                    - v_frequency_amplitude w ! f)
                 * sm)))
        [0..<length (v_amplitude w)],
       map (\<lambda>f. (\<Sum>t'<length (v_amplitude w).
                       v_fourier_transform w ! f ! t' * v_amplitude w ! t')
                    - v_frequency_amplitude w ! f)
         [0..<length (v_frequency_amplitude_prediction w)])"
proof -
  let ?a = "v_amplitude w" and ?m = "v_fourier_transform w"
  let ?F = "length (v_frequency_amplitude_prediction w)"
  let ?r = "\<lambda>f. (\<Sum>t'<length ?a. ?m ! f ! t' * ?a ! t') - v_frequency_amplitude w ! f"
  let ?p = "map ?r [0..<?F]"
  let ?g = "\<lambda>t. ?a ! t - (\<Sum>f<?F. ?m ! f ! t * ?r f * sm)"
  have p: "launch bf threads_per_block
      (reconstruct_ista_prediction_step (v_frequency_amplitude w) ?a ?m)
      (v_frequency_amplitude_prediction w) = ?p"
    by (rule prediction_launch [OF freq])
  have "launch bt threads_per_block (reconstruct_sista_manifold_step ?p sm ?m) ?a
      = map (\<lambda>t. ?a ! t - (\<Sum>f<length ?p. ?m ! f ! t * ?p ! f * sm)) [0..<length ?a]"
    by (rule manifold_launch [OF time])
  also have "\<dots> = map ?g [0..<length ?a]"
  proof (rule map_cong [OF refl])
    fix t
    have "(\<Sum>f<length ?p. ?m ! f ! t * ?p ! f * sm) = (\<Sum>f<?F. ?m ! f ! t * ?r f * sm)"
      by (rule sum.cong) simp_all
    then show "?a ! t - (\<Sum>f<length ?p. ?m ! f ! t * ?p ! f * sm) = ?g t"
      by (simp only:)
  qed
  finally have g: "launch bt threads_per_block (reconstruct_sista_manifold_step ?p sm ?m) ?a
      = map ?g [0..<length ?a]" .
  have cover: "length (map ?g [0..<length ?a]) \<le> bt * threads_per_block"
    using time by simp
  have "ista_steps ss sm bt bf w
      = (launch bt threads_per_block (reconstruct_ista_sparse_step ss) (map ?g [0..<length ?a]),
         ?p)"
    by (simp only: ista_steps_def Let_def p g)
  also have "launch bt threads_per_block (reconstruct_ista_sparse_step ss)
      (map ?g [0..<length ?a]) = map (sparse_cell ss) (map ?g [0..<length ?a])"
    by (rule sparse_launch [OF cover])
  finally show ?thesis by (simp only: map_map comp_def)
qed

lemma np_blend_nth:
  assumes "t < length u" and "length a = length u"
  shows "np_add u (np_scale c (np_sub u a)) ! t = u ! t + c * (u ! t - a ! t)"
  using assms by (simp add: np_add_def np_scale_def np_sub_def)

lemma np_blend_length:
  assumes "length a = length u"
  shows "length (np_add u (np_scale c (np_sub u a))) = length u"
  using assms by (simp add: np_add_def np_scale_def np_sub_def)

text \<open>One pass of the loop body of \<^verbatim>\<open>evaluate_fista\<close>, cell by cell.\<close>

lemma fista_iteration_closed_form:
  fixes ss sm :: real and w :: workspace
  assumes time: "length (v_amplitude w) \<le> bt * threads_per_block"
    and freq: "length (v_frequency_amplitude_prediction w) \<le> bf * threads_per_block"
  defines "update \<equiv> \<lambda>t. sparse_cell ss
        (v_amplitude w ! t
          - (\<Sum>f<length (v_frequency_amplitude_prediction w).
               v_fourier_transform w ! f ! t
                 * ((\<Sum>t'<length (v_amplitude w).
                       v_fourier_transform w ! f ! t' * v_amplitude w ! t')
                    - v_frequency_amplitude w ! f)
                 * sm))"
  shows "v_amplitude (fista_iteration ss sm bt bf w)
      = map (\<lambda>t. update t
            + (v_fast_step_size w - 1) / ((1 + sqrt (1 + 4 * (v_fast_step_size w) ^ 2)) / 2)
              * (update t - v_amplitude w ! t))
          [0..<length (v_amplitude w)]"
    and "length (v_frequency_amplitude_prediction (fista_iteration ss sm bt bf w))
      = length (v_frequency_amplitude_prediction w)"
proof -
  let ?T = "length (v_amplitude w)"
  let ?c = "(v_fast_step_size w - 1) / ((1 + sqrt (1 + 4 * (v_fast_step_size w) ^ 2)) / 2)"
  have steps: "ista_steps ss sm bt bf w
      = (map update [0..<?T],
         map (\<lambda>f. (\<Sum>t'<?T. v_fourier_transform w ! f ! t' * v_amplitude w ! t')
                    - v_frequency_amplitude w ! f)
           [0..<length (v_frequency_amplitude_prediction w)])"
    unfolding update_def by (rule ista_steps_closed_form [OF time freq])
  have a: "v_amplitude (fista_iteration ss sm bt bf w)
      = np_add (map update [0..<?T]) (np_scale ?c (np_sub (map update [0..<?T]) (v_amplitude w)))"
    by (simp add: fista_iteration_def Let_def steps np_scale_one)
  show "v_amplitude (fista_iteration ss sm bt bf w)
      = map (\<lambda>t. update t + ?c * (update t - v_amplitude w ! t)) [0..<?T]"
  proof (rule nth_equalityI)
    show "length (v_amplitude (fista_iteration ss sm bt bf w))
        = length (map (\<lambda>t. update t + ?c * (update t - v_amplitude w ! t)) [0..<?T])"
      unfolding a by (simp add: np_blend_length)
  next
    fix t assume "t < length (v_amplitude (fista_iteration ss sm bt bf w))"
    then have t: "t < ?T" unfolding a by (simp add: np_blend_length)
    then have "np_add (map update [0..<?T])
        (np_scale ?c (np_sub (map update [0..<?T]) (v_amplitude w))) ! t
        = map update [0..<?T] ! t + ?c * (map update [0..<?T] ! t - v_amplitude w ! t)"
      by (intro np_blend_nth) simp_all
    with t show "v_amplitude (fista_iteration ss sm bt bf w) ! t
        = map (\<lambda>t. update t + ?c * (update t - v_amplitude w ! t)) [0..<?T] ! t"
      unfolding a by simp
  qed
  show "length (v_frequency_amplitude_prediction (fista_iteration ss sm bt bf w))
      = length (v_frequency_amplitude_prediction w)"
    by (simp add: fista_iteration_def Let_def steps)
qed

subsection \<open>The candidates of the FISTA driver\<close>

lemma fista_iteration_length:
  assumes time: "length (v_amplitude w) \<le> bt * threads_per_block"
  shows "length (v_amplitude (fista_iteration ss sm bt bf w)) = length (v_amplitude w)"
proof -
  let ?p = "launch bf threads_per_block
      (reconstruct_ista_prediction_step (v_frequency_amplitude w) (v_amplitude w)
         (v_fourier_transform w))
      (v_frequency_amplitude_prediction w)"
  let ?g = "launch bt threads_per_block
      (reconstruct_sista_manifold_step ?p sm (v_fourier_transform w)) (v_amplitude w)"
  have g: "length ?g = length (v_amplitude w)"
    by (simp add: manifold_launch [OF time])
  then have "length ?g \<le> bt * threads_per_block" using time by simp
  then have "length (launch bt threads_per_block (reconstruct_ista_sparse_step ss) ?g)
      = length (v_amplitude w)"
    by (simp add: sparse_launch g)
  then have "length (fst (ista_steps ss sm bt bf w)) = length (v_amplitude w)"
    by (simp add: ista_steps_def Let_def)
  then show ?thesis
    by (simp add: fista_iteration_def Let_def split_def np_scale_one np_blend_length)
qed

lemma fista_start_shape:
  "length (v_amplitude (fista_start ea ep et time_coarse time_step_coarse frequency
      frequency_amplitude)) = length time_coarse"
  "length (v_frequency_amplitude_prediction (fista_start ea ep et time_coarse time_step_coarse
      frequency frequency_amplitude)) = length frequency_amplitude"
   by (simp_all add: fista_start_def Let_def split_def np_empty_shapes
       initialisation_launch [OF np_empty_shapes blocksPer_grid_cover])

lemma fista_iterates_length:
  "length (v_amplitude
      ((fista_iteration ss sm (blocksPer_grid (length time_coarse)) bf ^^ n)
         (fista_start ea ep et time_coarse time_step_coarse frequency frequency_amplitude)))
    = length time_coarse"
proof (induction n)
  case 0
  show ?case by (simp add: fista_start_shape)
next
  case (Suc n)
  let ?w = "(fista_iteration ss sm (blocksPer_grid (length time_coarse)) bf ^^ n)
      (fista_start ea ep et time_coarse time_step_coarse frequency frequency_amplitude)"
  have "length (v_amplitude ?w) \<le> blocksPer_grid (length time_coarse) * threads_per_block"
    unfolding Suc by (rule blocksPer_grid_cover)
  then have "length (v_amplitude
        (fista_iteration ss sm (blocksPer_grid (length time_coarse)) bf ?w))
      = length (v_amplitude ?w)"
    by (rule fista_iteration_length)
  then show ?case using Suc by simp
qed

lemma fista_iterates_prediction_length:
  assumes "length frequency_amplitude = length frequency"
  shows "length (v_frequency_amplitude_prediction
      ((fista_iteration ss sm (blocksPer_grid (length time_coarse))
          (blocksPer_grid (length frequency)) ^^ n)
         (fista_start ea ep et time_coarse time_step_coarse frequency frequency_amplitude)))
    = length frequency"
proof (induction n)
  case 0
  show ?case using assms by (simp add: fista_start_shape)
next
  case (Suc n)
  let ?w = "(fista_iteration ss sm (blocksPer_grid (length time_coarse))
        (blocksPer_grid (length frequency)) ^^ n)
      (fista_start ea ep et time_coarse time_step_coarse frequency frequency_amplitude)"
  have "length (v_amplitude ?w) = length time_coarse"
    by (rule fista_iterates_length)
  then have time: "length (v_amplitude ?w)
      \<le> blocksPer_grid (length time_coarse) * threads_per_block"
    by (simp add: blocksPer_grid_cover)
  have freq: "length (v_frequency_amplitude_prediction ?w)
      \<le> blocksPer_grid (length frequency) * threads_per_block"
    unfolding Suc by (rule blocksPer_grid_cover)
  have "length (v_frequency_amplitude_prediction
        (fista_iteration ss sm (blocksPer_grid (length time_coarse))
          (blocksPer_grid (length frequency)) ?w))
      = length (v_frequency_amplitude_prediction ?w)"
    by (rule fista_iteration_closed_form(2) [OF time freq])
  then show ?case using Suc by simp
qed

subsection \<open>Momentum\<close>

lemma fista_iteration_fast_step_size:
  "v_fast_step_size (fista_iteration ss sm bt bf w)
     = (1 + sqrt (1 + 4 * (v_fast_step_size w) ^ 2)) / 2"
  by (simp add: fista_iteration_def Let_def split_def)

lemma fista_start_fast_step_size:
  "v_fast_step_size (fista_start ea ep et time_coarse time_step_coarse frequency
      frequency_amplitude) = 1"
  by (simp add: fista_start_def split_def Let_def)

lemma fista_iterates_fast_step_size:
  assumes "v_fast_step_size w = 1"
  shows "v_fast_step_size ((fista_iteration ss sm bt bf ^^ n) w) = momentum_t n"
  using assms by (induction n) (simp_all add: fista_iteration_fast_step_size)

lemma fista_iterates_inputs:
  "same_inputs ((fista_iteration ss sm bt bf ^^ n) w) w"
  by (rule iterates_frame) (rule fista_iteration_frame)

lemma fista_candidate_blend:
  fixes ss sm time_step_coarse :: real
    and ea ep :: "nat \<Rightarrow> real" and et :: "nat \<Rightarrow> nat \<Rightarrow> real"
    and time_coarse frequency frequency_amplitude :: "real list"
  defines "seed \<equiv>
      fista_start ea ep et time_coarse time_step_coarse frequency frequency_amplitude"
    and "iteration \<equiv> fista_iteration ss sm (blocksPer_grid (length time_coarse))
      (blocksPer_grid (length frequency))"
  defines "candidate \<equiv> \<lambda>n. v_amplitude ((iteration ^^ n) seed)"
    and "operator \<equiv> v_fourier_transform seed"
  defines "update \<equiv> \<lambda>n t. sparse_cell ss
      (candidate n ! t
        - (\<Sum>f<length frequency.
             operator ! f ! t
               * ((\<Sum>t'<length time_coarse. operator ! f ! t' * candidate n ! t')
                  - frequency_amplitude ! f)
               * sm))"
  assumes shape: "length frequency_amplitude = length frequency"
    and t: "t < length time_coarse"
  shows "candidate (Suc n) ! t
    = update n t + (momentum_t n - 1) / momentum_t (Suc n) * (update n t - candidate n ! t)"
proof -
  let ?w = "(iteration ^^ n) seed"
  have T: "length (v_amplitude ?w) = length time_coarse"
    unfolding iteration_def seed_def by (rule fista_iterates_length)
  have F: "length (v_frequency_amplitude_prediction ?w) = length frequency"
    unfolding iteration_def seed_def by (rule fista_iterates_prediction_length [OF shape])
  have time: "length (v_amplitude ?w)
      \<le> blocksPer_grid (length time_coarse) * threads_per_block"
    unfolding T by (rule blocksPer_grid_cover)
  have freq: "length (v_frequency_amplitude_prediction ?w)
      \<le> blocksPer_grid (length frequency) * threads_per_block"
    unfolding F by (rule blocksPer_grid_cover)
  have "same_inputs ?w seed"
    unfolding iteration_def by (rule fista_iterates_inputs)
  then have m: "v_fourier_transform ?w = operator"
    and a: "v_frequency_amplitude ?w = frequency_amplitude"
    by (simp_all add: same_inputs_def operator_def seed_def fista_start_fields)
  have s: "v_fast_step_size ?w = momentum_t n"
    unfolding iteration_def seed_def
    by (rule fista_iterates_fast_step_size) (rule fista_start_fast_step_size)
  have "candidate (Suc n) = v_amplitude (fista_iteration ss sm
      (blocksPer_grid (length time_coarse)) (blocksPer_grid (length frequency)) ?w)"
    by (simp add: candidate_def iteration_def)
  also have "\<dots> = map (\<lambda>t. update n t
      + (momentum_t n - 1) / ((1 + sqrt (1 + 4 * (momentum_t n) ^ 2)) / 2)
        * (update n t - candidate n ! t)) [0..<length time_coarse]"
    unfolding fista_iteration_closed_form(1) [OF time freq] T F m a s update_def candidate_def
    by (rule refl)
  finally show ?thesis using t by simp
qed

text \<open>
  C2. In the FISTA driver the momentum scalars satisfy \<open>t\<^sub>1 = 1\<close> and
  \<open>t\<^bsub>k+1\<^esub> = (1 + \<surd>(1 + 4 t\<^sub>k\<^sup>2)) / 2\<close>, and each iteration produces
  \<open>candidate\<^sub>k = update + ((t\<^bsub>k-1\<^esub> - 1) / t\<^sub>k) (update - candidate\<^bsub>k-1\<^esub>)\<close>, where
  \<open>update\<close> is the result of the prediction, manifold and sparse steps on
  \<open>candidate\<^bsub>k-1\<^esub>\<close>. The seed is \<open>candidate\<^sub>1\<close>, so iteration \<open>n + 1\<close> of the loop body
  produces \<open>candidate\<^bsub>n+2\<^esub>\<close>; below \<open>candidate n\<close> is \<open>candidate\<^bsub>n+1\<^esub>\<close> and
  \<open>momentum_t n\<close> is \<open>t\<^bsub>n+1\<^esub>\<close>. The variable \<^verbatim>\<open>fast_step_size\<close> starts at one and
  follows the recurrence, and every cell of the next candidate is the blend of the
  update with the candidate before, the update being the sparse step applied to the
  candidate less the step size times the operator's transpose on the residual. The
  blend is stated for ingested samples, as many measured amplitudes as frequencies.
\<close>

theorem fista_momentum_recurrence:
  fixes ss sm time_step_coarse :: real
    and ea ep :: "nat \<Rightarrow> real" and et :: "nat \<Rightarrow> nat \<Rightarrow> real"
    and time_coarse frequency frequency_amplitude :: "real list"
  defines "seed \<equiv>
      fista_start ea ep et time_coarse time_step_coarse frequency frequency_amplitude"
    and "iteration \<equiv> fista_iteration ss sm (blocksPer_grid (length time_coarse))
      (blocksPer_grid (length frequency))"
  defines "candidate \<equiv> \<lambda>n. v_amplitude ((iteration ^^ n) seed)"
    and "operator \<equiv> v_fourier_transform seed"
  defines "update \<equiv> \<lambda>n t. sparse_cell ss
      (candidate n ! t
        - (\<Sum>f<length frequency.
             operator ! f ! t
               * ((\<Sum>t'<length time_coarse. operator ! f ! t' * candidate n ! t')
                  - frequency_amplitude ! f)
               * sm))"
  shows "momentum_t 0 = 1
       \<and> (\<forall>k. momentum_t (Suc k) = (1 + sqrt (1 + 4 * (momentum_t k) ^ 2)) / 2)
       \<and> v_fast_step_size seed = 1
       \<and> (\<forall>n. v_fast_step_size ((iteration ^^ Suc n) seed)
             = (1 + sqrt (1 + 4 * (v_fast_step_size ((iteration ^^ n) seed)) ^ 2)) / 2)
       \<and> (\<forall>n. v_fast_step_size ((iteration ^^ n) seed) = momentum_t n)
       \<and> (\<forall>n. length (candidate n) = length time_coarse)
       \<and> (length frequency_amplitude = length frequency \<longrightarrow>
           (\<forall>n. \<forall>t<length time_coarse.
              candidate (Suc n) ! t
              = update n t
                + (momentum_t n - 1) / momentum_t (Suc n) * (update n t - candidate n ! t)))"
proof -
  have start: "v_fast_step_size seed = 1"
    unfolding seed_def by (rule fista_start_fast_step_size)
  have step: "v_fast_step_size ((iteration ^^ Suc n) seed)
      = (1 + sqrt (1 + 4 * (v_fast_step_size ((iteration ^^ n) seed)) ^ 2)) / 2" for n
    by (simp add: iteration_def fista_iteration_fast_step_size)
  have t: "v_fast_step_size ((iteration ^^ n) seed) = momentum_t n" for n
    unfolding iteration_def by (rule fista_iterates_fast_step_size) (rule start)
  have len: "length (candidate n) = length time_coarse" for n
    unfolding candidate_def iteration_def seed_def by (rule fista_iterates_length)
  have blend: "candidate (Suc n) ! t
      = update n t + (momentum_t n - 1) / momentum_t (Suc n) * (update n t - candidate n ! t)"
    if "length frequency_amplitude = length frequency" and "t < length time_coarse" for n t
    unfolding update_def candidate_def operator_def iteration_def seed_def
    using that by (rule fista_candidate_blend)
  show ?thesis
    using start step t len blend by simp
qed

subsection \<open>A run of one iteration\<close>

text \<open>
  The time grid \<open>[0, 1]\<close> with step 1, the frequency \<open>1/4\<close> and the measured amplitude 1:
  the operator is \<open>[[0, 1]]\<close> and the seed \<open>[0, 2]\<close>.
\<close>

lemma initialisation_operator:
  fixes time_step_coarse :: real
  assumes "T = length time_coarse" and "F = length frequency"
  shows "snd (launch (blocksPer_grid T) threads_per_block
           (reconstruct_ista_initialisation_step frequency frequency_amplitude time_step_coarse
              time_coarse)
           (np_empty ea T, np_empty2 et F T))
    = map (\<lambda>f. map (\<lambda>t. sin (2 * pi * frequency ! f * time_coarse ! t) * time_step_coarse
                             / time_coarse ! (T - 1))
                  [0..<T]) [0..<F]"
  unfolding assms
  by (simp add: initialisation_launch [OF np_empty_shapes blocksPer_grid_cover])

lemma example_start:
  "v_amplitude (fista_start ea ep et [0, 1] 1 [1/4] [1]) = [0, 2]"
  "v_fourier_transform (fista_start ea ep et [0, 1] 1 [1/4] [1]) = [[0, 1]]"
proof -
  have "v_amplitude (fista_start ea ep et [0, 1] 1 [1/4] [1])
      = fst (launch (blocksPer_grid (length [0, 1 :: real])) threads_per_block
          (reconstruct_ista_initialisation_step [1/4] [1] 1 [0, 1])
          (np_empty ea (length [0, 1 :: real]),
           np_empty2 et (length [1/4 :: real]) (length [0, 1 :: real])))"
    by (simp only: fista_start_fields)
  also have "\<dots> = map (\<lambda>t. \<Sum>f<length [1/4 :: real].
              2 * (sin (2 * pi * [1/4] ! f * [0, 1] ! t) * 1
                     / [0, 1] ! (length [0, 1 :: real] - 1))
                * ([0, 1] ! (length [0, 1 :: real] - 1) / 1)
                * [1] ! f) [0..<length [0, 1 :: real]]"
    by (rule initialisation_seed) (rule refl)+
  also have "\<dots> = [0, 2]"
    by simp
  finally show "v_amplitude (fista_start ea ep et [0, 1] 1 [1/4] [1]) = [0, 2]" .
  have "v_fourier_transform (fista_start ea ep et [0, 1] 1 [1/4] [1])
      = snd (launch (blocksPer_grid (length [0, 1 :: real])) threads_per_block
          (reconstruct_ista_initialisation_step [1/4] [1] 1 [0, 1])
          (np_empty ea (length [0, 1 :: real]),
           np_empty2 et (length [1/4 :: real]) (length [0, 1 :: real])))"
    by (simp only: fista_start_fields)
  also have "\<dots> = map (\<lambda>f. map (\<lambda>t. sin (2 * pi * [1/4] ! f * [0, 1] ! t) * 1
                             / [0, 1] ! (length [0, 1 :: real] - 1))
                  [0..<length [0, 1 :: real]]) [0..<length [1/4 :: real]]"
    by (rule initialisation_operator) (rule refl)+
  also have "\<dots> = [[0, 1]]"
    by simp
  finally show "v_fourier_transform (fista_start ea ep et [0, 1] 1 [1/4] [1]) = [[0, 1]]" .
qed

lemma example_sparse_cell: "sparse_cell (1/10) (3/2) = 7/5" "sparse_cell (1/10) 0 = 0"
proof -
  have "0 < float64_half_least" by (simp add: float64_half_least_def)
  then show "sparse_cell (1/10) (3/2) = 7/5" "sparse_cell (1/10) 0 = 0"
    by (simp_all add: sparse_cell_def float64_product_negative_def)
qed

theorem fista_momentum_recurrence_witness:
  "v_amplitude (fista_iteration (1/10) (1/2) (blocksPer_grid 2) (blocksPer_grid 1)
      (fista_start (\<lambda>i. 7) (\<lambda>i. 8) (\<lambda>f t. 9) [0, 1] 1 [1/4] [1])) ! 1 = 7/5"
proof -
  have len: "length [0, 1 :: real] = 2" "length [1/4 :: real] = 1" by simp_all
  have shape: "length [1 :: real] = length [1/4 :: real]" by simp
  have sum2: "\<And>h :: nat \<Rightarrow> real. (\<Sum>t<2. h t) = h 0 + h 1"
    by (simp add: eval_nat_numeral)
  have t: "(1::nat) < 2" by simp
  note blend = fista_momentum_recurrence [where frequency_amplitude = "[1]"
      and frequency = "[1/4]" and time_coarse = "[0, 1]" and ss = "1/10" and sm = "1/2"
      and ea = "\<lambda>i. 7" and ep = "\<lambda>i. 8" and et = "\<lambda>f t. 9" and time_step_coarse = 1,
      THEN conjunct2, THEN conjunct2, THEN conjunct2, THEN conjunct2, THEN conjunct2,
      THEN conjunct2, rule_format, OF shape, of 1 0, unfolded len, OF t]
  show ?thesis
    using blend by (simp add: example_start example_sparse_cell sum2)
qed

subsection \<open>The test between consecutive candidates\<close>

lemma sum_list_zip_nth:
  fixes h :: "real \<Rightarrow> real \<Rightarrow> real"
  assumes "length a = n" and "length p = n"
  shows "(\<Sum>(x, y)\<leftarrow>zip a p. h x y) = (\<Sum>t<n. h (a ! t) (p ! t))"
proof -
  have "(\<Sum>(x, y)\<leftarrow>zip a p. h x y)
      = (\<Sum>i = 0..<length (map (\<lambda>(x, y). h x y) (zip a p)).
           map (\<lambda>(x, y). h x y) (zip a p) ! i)"
    by (rule sum_list_sum_nth)
  also have "\<dots> = (\<Sum>i = 0..<n. h (a ! i) (p ! i))"
    using assms by (intro sum.cong) simp_all
  finally show ?thesis by (simp add: atLeast0LessThan)
qed

lemma sum_list_squares_nth:
  fixes a :: "real list"
  shows "(\<Sum>x\<leftarrow>a. x ^ 2) = (\<Sum>t<length a. (a ! t - 0) ^ 2)"
proof -
  have "(\<Sum>x\<leftarrow>a. x ^ 2) = (\<Sum>i = 0..<length (map (\<lambda>x. x ^ 2) a). map (\<lambda>x. x ^ 2) a ! i)"
    by (rule sum_list_sum_nth)
  also have "\<dots> = (\<Sum>i = 0..<length a. (a ! i - 0) ^ 2)"
    by (intro sum.cong) simp_all
  finally show ?thesis by (simp add: atLeast0LessThan)
qed

lemma fista_not_converged_change:
  fixes ss sm time_step_coarse :: real
    and ea ep :: "nat \<Rightarrow> real" and et :: "nat \<Rightarrow> nat \<Rightarrow> real"
    and time_coarse frequency frequency_amplitude :: "real list" and bf :: nat
  defines "seed \<equiv>
      fista_start ea ep et time_coarse time_step_coarse frequency frequency_amplitude"
    and "iteration \<equiv> fista_iteration ss sm (blocksPer_grid (length time_coarse)) bf"
  defines "candidate \<equiv> \<lambda>n. v_amplitude ((iteration ^^ n) seed)"
  shows "not_converged ((iteration ^^ n) seed) \<longleftrightarrow>
     1 < (\<Sum>t<length time_coarse.
            (candidate n ! t - (if n = 0 then 0 else candidate (n - 1) ! t)) ^ 2)"
proof (cases n)
  case 0
  have "length (v_amplitude seed) = length time_coarse"
    unfolding seed_def by (rule fista_start_shape)
  then have "(\<Sum>x\<leftarrow>v_amplitude seed. x ^ 2)
      = (\<Sum>t<length time_coarse. (v_amplitude seed ! t - 0) ^ 2)"
    using sum_list_squares_nth [of "v_amplitude seed"] by simp
  then show ?thesis
    using 0 by (simp add: candidate_def seed_def fista_start_converged)
next
  case (Suc k)
  let ?w = "(iteration ^^ k) seed"
  have prev: "v_amplitude_previous (iteration ?w) = candidate k"
    by (simp add: iteration_def candidate_def fista_iteration_previous)
  have len: "length (candidate (Suc k)) = length time_coarse"
    "length (candidate k) = length time_coarse"
    unfolding candidate_def iteration_def seed_def by (rule fista_iterates_length)+
  have "not_converged (iteration ?w) \<longleftrightarrow>
      1 < (\<Sum>(a, p)\<leftarrow>zip (candidate (Suc k)) (candidate k). (a - p) ^ 2)"
    unfolding not_converged_sum prev by (simp add: candidate_def)
  also have "(\<Sum>(a, p)\<leftarrow>zip (candidate (Suc k)) (candidate k). (a - p) ^ 2)
      = (\<Sum>t<length time_coarse. (candidate (Suc k) ! t - candidate k ! t) ^ 2)"
    by (rule sum_list_zip_nth [OF len])
  finally show ?thesis using Suc by simp
qed

lemma naive_not_converged_change:
  fixes w :: workspace and ss sm :: real and bt bf :: nat
  defines "w0 \<equiv> w\<lparr>v_amplitude_previous := np_scale 0 (v_amplitude w)\<rparr>"
  defines "candidate \<equiv> \<lambda>n. v_amplitude ((naive_ista_iteration ss sm bt bf ^^ n) w0)"
  shows "not_converged ((naive_ista_iteration ss sm bt bf ^^ n) w0) \<longleftrightarrow>
     1 < (if n = 0 then (\<Sum>x\<leftarrow>v_amplitude w. x ^ 2)
          else (\<Sum>(a, p)\<leftarrow>zip (candidate n) (candidate (n - 1)). (a - p) ^ 2))"
proof (cases n)
  case 0
  then show ?thesis
    by (simp add: w0_def not_converged_def np_sub_zero py_sum_sum_list np_square_def)
next
  case (Suc k)
  let ?w = "(naive_ista_iteration ss sm bt bf ^^ k) w0"
  have prev: "v_amplitude_previous (naive_ista_iteration ss sm bt bf ?w) = candidate k"
    by (simp add: candidate_def naive_ista_iteration_previous)
  have "not_converged (naive_ista_iteration ss sm bt bf ?w) \<longleftrightarrow>
      1 < (\<Sum>(a, p)\<leftarrow>zip (candidate (Suc k)) (candidate k). (a - p) ^ 2)"
    unfolding not_converged_sum prev by (simp add: candidate_def)
  then show ?thesis using Suc by simp
qed

text \<open>
  C3. For both the ISTA and the FISTA driver the loop never terminates while the sum of
  squared differences between consecutive candidate vectors exceeds the fixed threshold
  1.0, and terminates as soon as that sum is at or below 1.0; for FISTA the compared
  vectors are the momentum-blended candidates. With ingested samples
  \<^verbatim>\<open>evaluate_fista\<close> returns exactly when some candidate changes by at most 1 from the
  one before, and it then stores the first such candidate; it runs forever exactly when
  every candidate changes by more than 1. The change of the seed is taken from the zero
  vector \<^verbatim>\<open>0*self.amplitude\<close>. Every later candidate is the blend of the update with the
  candidate before (for as many measured amplitudes as frequencies). The loop of
  \<^verbatim>\<open>evaluate_naive_ista\<close>, from line 167 on, returns and diverges by the same test.
\<close>

theorem drivers_run_until_converged:
  fixes self :: reconstruction and w :: workspace and ss sm :: real and bt bf :: nat
    and ea ep :: "nat \<Rightarrow> real" and et :: "nat \<Rightarrow> nat \<Rightarrow> real"
    and frequency frequency_amplitude :: "real list"
  defines "seed \<equiv> fista_start ea ep et (self_time_coarse self) (self_time_step_coarse self)
      frequency frequency_amplitude"
    and "iteration \<equiv> fista_iteration (self_step_size_sparse self) (self_step_size_manifold self)
      (blocksPer_grid (length (self_time_coarse self))) (blocksPer_grid (length frequency))"
    and "w0 \<equiv> w\<lparr>v_amplitude_previous := np_scale 0 (v_amplitude w)\<rparr>"
  defines "candidate \<equiv> \<lambda>n. v_amplitude ((iteration ^^ n) seed)"
    and "operator \<equiv> v_fourier_transform seed"
    and "naive_candidate \<equiv> \<lambda>n. v_amplitude ((naive_ista_iteration ss sm bt bf ^^ n) w0)"
  defines "change \<equiv> \<lambda>n. \<Sum>t<length (self_time_coarse self).
      (candidate n ! t - (if n = 0 then 0 else candidate (n - 1) ! t)) ^ 2"
    and "naive_change \<equiv> \<lambda>n. if n = 0 then (\<Sum>x\<leftarrow>v_amplitude w. x ^ 2)
      else (\<Sum>(a, p)\<leftarrow>zip (naive_candidate n) (naive_candidate (n - 1)). (a - p) ^ 2)"
    and "update \<equiv> \<lambda>n t. sparse_cell (self_step_size_sparse self)
      (candidate n ! t
        - (\<Sum>f<length frequency.
             operator ! f ! t
               * ((\<Sum>t'<length (self_time_coarse self). operator ! f ! t' * candidate n ! t')
                  - frequency_amplitude ! f)
               * self_step_size_manifold self))"
  assumes "self_frequency self = Some frequency"
    and "self_frequency_amplitude self = Some frequency_amplitude"
  shows "(\<forall>r. evaluate_fista ea ep et self = Some r \<longleftrightarrow>
            (\<exists>n. change n \<le> 1 \<and> (\<forall>k<n. 1 < change k)
               \<and> r = (None, self\<lparr>self_amplitude := Some (candidate n)\<rparr>)))
       \<and> (evaluate_fista ea ep et self = None \<longleftrightarrow> (\<forall>n. 1 < change n))
       \<and> (length frequency_amplitude = length frequency \<longrightarrow>
           (\<forall>n. \<forall>t<length (self_time_coarse self).
              candidate (Suc n) ! t
              = update n t
                + (momentum_t n - 1) / momentum_t (Suc n) * (update n t - candidate n ! t)))
       \<and> (\<forall>w'. naive_ista_loop ss sm bt bf w = Some w' \<longleftrightarrow>
            (\<exists>n. naive_change n \<le> 1 \<and> (\<forall>k<n. 1 < naive_change k)
               \<and> w' = (naive_ista_iteration ss sm bt bf ^^ n) w0))
       \<and> (naive_ista_loop ss sm bt bf w = None \<longleftrightarrow> (\<forall>n. 1 < naive_change n))"
proof -
  let ?store = "\<lambda>w. (None :: error option, self\<lparr>self_amplitude := Some (v_amplitude w)\<rparr>)"
  let ?naive = "naive_ista_iteration ss sm bt bf"
  have run: "evaluate_fista ea ep et self
      = map_option ?store (py_while not_converged iteration seed)"
    using assms(10,11) by (simp add: evaluate_fista_def Let_def iteration_def seed_def)
  have test: "not_converged ((iteration ^^ n) seed) \<longleftrightarrow> 1 < change n" for n
    unfolding change_def candidate_def iteration_def seed_def
    by (rule fista_not_converged_change)
  have returns: "evaluate_fista ea ep et self = Some r \<longleftrightarrow>
      (\<exists>n. change n \<le> 1 \<and> (\<forall>k<n. 1 < change k)
         \<and> r = (None, self\<lparr>self_amplitude := Some (candidate n)\<rparr>))" for r
  proof
    assume "evaluate_fista ea ep et self = Some r"
    then obtain w' where w': "py_while not_converged iteration seed = Some w'"
      and r: "r = ?store w'"
      unfolding run by auto
    from w' obtain n where "w' = (iteration ^^ n) seed"
      "\<not> not_converged ((iteration ^^ n) seed)"
      "\<forall>k<n. not_converged ((iteration ^^ k) seed)"
      unfolding py_while_Some_iff by blast
    then have "change n \<le> 1 \<and> (\<forall>k<n. 1 < change k)
        \<and> r = (None, self\<lparr>self_amplitude := Some (candidate n)\<rparr>)"
      using r by (simp add: test candidate_def not_less)
    then show "\<exists>n. change n \<le> 1 \<and> (\<forall>k<n. 1 < change k)
        \<and> r = (None, self\<lparr>self_amplitude := Some (candidate n)\<rparr>)" ..
  next
    assume "\<exists>n. change n \<le> 1 \<and> (\<forall>k<n. 1 < change k)
        \<and> r = (None, self\<lparr>self_amplitude := Some (candidate n)\<rparr>)"
    then obtain n where n: "change n \<le> 1" "\<forall>k<n. 1 < change k"
      and r: "r = (None, self\<lparr>self_amplitude := Some (candidate n)\<rparr>)" by blast
    have "py_while not_converged iteration seed = Some ((iteration ^^ n) seed)"
      using n by (intro py_while_stops) (simp_all add: test not_less)
    then show "evaluate_fista ea ep et self = Some r"
      unfolding run by (simp add: r candidate_def)
  qed
  have diverges: "evaluate_fista ea ep et self = None \<longleftrightarrow> (\<forall>n. 1 < change n)"
    unfolding run by (simp add: py_while_None_iff test)
  have blend: "candidate (Suc n) ! t
      = update n t + (momentum_t n - 1) / momentum_t (Suc n) * (update n t - candidate n ! t)"
    if "length frequency_amplitude = length frequency" and "t < length (self_time_coarse self)"
    for n t
    unfolding update_def candidate_def operator_def iteration_def seed_def
    using that by (rule fista_candidate_blend)
  have loop: "naive_ista_loop ss sm bt bf w = py_while not_converged ?naive w0"
    by (simp add: naive_ista_loop_def w0_def)
  have naive_test: "not_converged ((?naive ^^ n) w0) \<longleftrightarrow> 1 < naive_change n" for n
    unfolding naive_change_def naive_candidate_def w0_def
    by (rule naive_not_converged_change)
  have naive_returns: "naive_ista_loop ss sm bt bf w = Some w' \<longleftrightarrow>
      (\<exists>n. naive_change n \<le> 1 \<and> (\<forall>k<n. 1 < naive_change k) \<and> w' = (?naive ^^ n) w0)" for w'
    unfolding loop py_while_Some_iff by (auto simp: naive_test not_less)
  have naive_diverges: "naive_ista_loop ss sm bt bf w = None \<longleftrightarrow> (\<forall>n. 1 < naive_change n)"
    unfolding loop by (simp add: py_while_None_iff naive_test)
  show ?thesis
    using returns diverges blend naive_returns naive_diverges by simp
qed

lemma example_iteration:
  "v_amplitude (fista_iteration (1/10) (1/2) (blocksPer_grid 2) (blocksPer_grid 1)
      (fista_start ea ep et [0, 1] 1 [1/4] [1])) = [0, 7/5]"
proof -
  let ?w = "fista_start ea ep et [0, 1] 1 [1/4] [1]"
  have a: "length (v_amplitude ?w) = 2"
    and p: "length (v_frequency_amplitude_prediction ?w) = 1"
    by (simp_all add: fista_start_shape)
  have time: "length (v_amplitude ?w) \<le> blocksPer_grid 2 * threads_per_block"
    unfolding a by (rule blocksPer_grid_cover)
  have freq: "length (v_frequency_amplitude_prediction ?w)
      \<le> blocksPer_grid 1 * threads_per_block"
    unfolding p by (rule blocksPer_grid_cover)
  have sum2: "\<And>h :: nat \<Rightarrow> real. (\<Sum>t<2. h t) = h 0 + h 1"
    by (simp add: eval_nat_numeral)
  have idx: "[0..<2] = [0, 1]" by (simp add: eval_nat_numeral)
  have m: "v_frequency_amplitude ?w = [1]"
    by (simp add: fista_start_fields)
  show ?thesis
    unfolding fista_iteration_closed_form(1) [OF time freq] a p example_start m
      fista_start_fast_step_size
    by (simp add: example_sparse_cell sum2 idx)
qed

theorem drivers_run_until_converged_witness:
  "evaluate_fista (\<lambda>i. 7) (\<lambda>i. 8) (\<lambda>f t. 9)
     \<lparr>self_time_coarse = [0, 1], self_time_step_coarse = 1,
      self_frequency = Some [1/4], self_frequency_amplitude = Some [1],
      self_amplitude = None, self_step_size_sparse = 1/10,
      self_step_size_manifold = 1/2\<rparr>
   = Some (None,
     \<lparr>self_time_coarse = [0, 1], self_time_step_coarse = 1,
      self_frequency = Some [1/4], self_frequency_amplitude = Some [1],
      self_amplitude = Some [0, 7/5], self_step_size_sparse = 1/10,
      self_step_size_manifold = 1/2\<rparr>)
   \<and> (\<exists>w'. naive_ista_loop (1/10) (1/2) 1 1
        \<lparr>v_time_coarse = [1], v_frequency = [1], v_frequency_amplitude = [0],
         v_fourier_transform = [[1]], v_frequency_amplitude_prediction = [5],
         v_amplitude = [3/2], v_amplitude_previous = [9],
         v_fast_step_size = 1, v_fastStep_size_previous = 1\<rparr> = Some w'
      \<and> v_amplitude w' = [7/10])"
proof -
  define self :: reconstruction where "self =
     \<lparr>self_time_coarse = [0, 1], self_time_step_coarse = 1,
      self_frequency = Some [1/4], self_frequency_amplitude = Some [1],
      self_amplitude = None, self_step_size_sparse = 1/10,
      self_step_size_manifold = 1/2\<rparr>"
  define u :: workspace where "u =
        \<lparr>v_time_coarse = [1], v_frequency = [1], v_frequency_amplitude = [0],
         v_fourier_transform = [[1]], v_frequency_amplitude_prediction = [5],
         v_amplitude = [3/2], v_amplitude_previous = [9],
         v_fast_step_size = 1, v_fastStep_size_previous = 1\<rparr>"
  have sel: "self_time_coarse self = [0, 1]" "self_time_step_coarse self = 1"
    "self_step_size_sparse self = 1/10" "self_step_size_manifold self = 1/2"
    and f: "self_frequency self = Some [1/4]"
    and a: "self_frequency_amplitude self = Some [1]"
    by (simp_all add: self_def)
  have len: "length [0, 1 :: real] = 2" "length [1/4 :: real] = 1" by simp_all
  let ?seed = "fista_start (\<lambda>i. 7) (\<lambda>i. 8) (\<lambda>f t. 9) [0, 1] 1 [1/4] [1]"
  let ?fista = "fista_iteration (1/10) (1/2) (blocksPer_grid 2) (blocksPer_grid 1)"
  let ?naive = "naive_ista_iteration (1/10) (1/2) 1 1"
  let ?u0 = "u\<lparr>v_amplitude_previous := np_scale 0 (v_amplitude u)\<rparr>"
  note inst = drivers_run_until_converged [where self = self and w = u and ss = "1/10"
      and sm = "1/2" and bt = 1 and bf = 1 and ea = "\<lambda>i. 7" and ep = "\<lambda>i. 8"
      and et = "\<lambda>f t. 9", OF f a, unfolded sel len]
  have sum2: "\<And>h :: nat \<Rightarrow> real. (\<Sum>t<2. h t) = h 0 + h 1"
    by (simp add: eval_nat_numeral)
  have c0: "v_amplitude ?seed = [0, 2]" by (rule example_start)
  have c1: "v_amplitude (?fista ?seed) = [0, 7/5]" by (rule example_iteration)
  have "\<exists>n. (\<Sum>t<2. (v_amplitude ((?fista ^^ n) ?seed) ! t
          - (if n = 0 then 0 else v_amplitude ((?fista ^^ (n - 1)) ?seed) ! t)) ^ 2) \<le> 1
      \<and> (\<forall>k<n. 1 < (\<Sum>t<2. (v_amplitude ((?fista ^^ k) ?seed) ! t
          - (if k = 0 then 0 else v_amplitude ((?fista ^^ (k - 1)) ?seed) ! t)) ^ 2))
      \<and> (None :: error option, self\<lparr>self_amplitude := Some [0, 7/5]\<rparr>)
        = (None, self\<lparr>self_amplitude := Some (v_amplitude ((?fista ^^ n) ?seed))\<rparr>)"
    using c0 c1 by (intro exI [of _ "Suc 0"]) (simp add: sum2 power2_eq_square)
  then have fista: "evaluate_fista (\<lambda>i. 7) (\<lambda>i. 8) (\<lambda>f t. 9) self
      = Some (None, self\<lparr>self_amplitude := Some [0, 7/5]\<rparr>)"
    using inst [THEN conjunct1, rule_format,
        of "(None, self\<lparr>self_amplitude := Some [0, 7/5]\<rparr>)"]
    by blast
  have cover: "\<And>x :: real. length [x] \<le> Suc 0 * threads_per_block"
    by (simp add: threads_per_block_def)
  have eps: "0 < float64_half_least" by (simp add: float64_half_least_def)
  have predict: "\<And>a old. launch (Suc 0) threads_per_block
      (reconstruct_ista_prediction_step [0] [a] [[1]]) [old] = [a]"
    by (simp add: prediction_launch [OF cover])
  have descend: "\<And>a r. launch (Suc 0) threads_per_block
      (reconstruct_sista_manifold_step [r] (1/2) [[1]]) [a] = [a - r / 2]"
    by (simp add: manifold_launch [OF cover])
  have threshold: "launch (Suc 0) threads_per_block
      (reconstruct_ista_sparse_step (1/10)) [3/2] = [7/5]"
    using eps
    by (simp add: sparse_launch [OF cover] sparse_cell_def float64_product_negative_def)
  have na: "v_amplitude (?naive ?u0) = [7/10]"
    by (simp add: u_def naive_ista_iteration_def Let_def predict descend threshold)
  have n0: "v_amplitude ((?naive ^^ 0) ?u0) = [3/2]" "v_amplitude u = [3/2]"
    by (simp_all add: u_def)
  have "\<exists>n. (if n = 0 then (\<Sum>x\<leftarrow>v_amplitude u. x ^ 2)
        else (\<Sum>(a, p)\<leftarrow>zip (v_amplitude ((?naive ^^ n) ?u0))
                (v_amplitude ((?naive ^^ (n - 1)) ?u0)). (a - p) ^ 2)) \<le> 1
      \<and> (\<forall>k<n. 1 < (if k = 0 then (\<Sum>x\<leftarrow>v_amplitude u. x ^ 2)
        else (\<Sum>(a, p)\<leftarrow>zip (v_amplitude ((?naive ^^ k) ?u0))
                (v_amplitude ((?naive ^^ (k - 1)) ?u0)). (a - p) ^ 2)))
      \<and> ?naive ?u0 = (?naive ^^ n) ?u0"
    using na n0 by (intro exI [of _ "Suc 0"]) (simp add: power2_eq_square)
  then have naive: "naive_ista_loop (1/10) (1/2) 1 1 u = Some (?naive ?u0)"
    using inst [THEN conjunct2, THEN conjunct2, THEN conjunct2, THEN conjunct1, rule_format,
        of "?naive ?u0"]
    by blast
  have "\<exists>w'. naive_ista_loop (1/10) (1/2) 1 1 u = Some w' \<and> v_amplitude w' = [7/10]"
    using naive na by blast
  with fista show ?thesis
    unfolding self_def u_def by simp
qed

section \<open>Ingesting samples\<close>

text \<open>
  What the call stores for a draw from a population that is not empty, with as many
  amplitudes as frequencies: the entries at the drawn indices, in the order drawn.
\<close>

lemma read_frequencies_directly_stores_draw:
  assumes "population = length (filter (\<lambda>f. f < frequency_cutoff) frequency)"
    and "random_choice_outcome population number_of_samples draw"
    and "0 < population"
    and "length frequency_amplitude = length frequency"
  shows "read_frequencies_directly draw self frequency frequency_amplitude number_of_samples
           frequency_cutoff
         = (None, self\<lparr>self_frequency := Some (map (\<lambda>i. frequency ! i) draw),
                       self_frequency_amplitude :=
                         Some (map (\<lambda>i. frequency_amplitude ! i) draw)\<rparr>)"
proof -
  have n: "int (length draw) = number_of_samples"
    and below: "list_all (\<lambda>i. i < population) draw"
    using assms(2) by (simp_all add: random_choice_outcome_def)
  have le: "population \<le> length frequency"
    unfolding assms(1) by (rule length_filter_le)
  have in_range: "list_all (\<lambda>i. i < length frequency_amplitude) draw"
    using below le assms(4) by (auto simp: list_all_iff)
  have nonneg: "\<not> number_of_samples < 0" using n by linarith
  show ?thesis
    using nonneg assms(3) in_range
    by (auto simp: read_frequencies_directly_def Let_def assms(1) [symmetric])
qed

text \<open>
  C6. \<^verbatim>\<open>read_frequencies_directly\<close> selects \<open>number_of_samples\<close> indices without
  replacement, so that no index is stored twice, from the entries whose frequency is
  below the cutoff, and stores the corresponding frequency and amplitude pairs; every
  stored frequency is below the cutoff. The code names the draw \<^verbatim>\<open>permutation\<close> and
  counts the entries below the cutoff, but it draws with the default replacement of
  \<^verbatim>\<open>np.random.choice\<close> and from the leading indices \<^verbatim>\<open>range\<close> of that count. From
  the frequencies \<open>[1, 2]\<close> the draw \<open>[0, 0]\<close> is possible and stores the first entry
  twice. From the frequencies \<open>[5000, 1]\<close> with the cutoff 3000 one entry is eligible,
  the only index that can be drawn is 0, and the frequency stored is 5000.
\<close>

theorem read_frequencies_directly_repeats_and_misses_cutoff:
  "random_choice_outcome (length (filter (\<lambda>f. f < 3000) [1, 2 :: real])) 2 [0, 0]
   \<and> read_frequencies_directly [0, 0] (init_reconstruction [0, 1] 1 (1/10) 100000)
        [1, 2] [10, 20] 2 3000
     = (None, (init_reconstruction [0, 1] 1 (1/10) 100000)
          \<lparr>self_frequency := Some [1, 1], self_frequency_amplitude := Some [10, 10]\<rparr>)
   \<and> \<not> distinct [0, 0 :: nat]
   \<and> random_choice_outcome (length (filter (\<lambda>f. f < 3000) [5000, 1 :: real])) 1 [0]
   \<and> read_frequencies_directly [0] (init_reconstruction [0, 1] 1 (1/10) 100000)
        [5000, 1] [10, 20] 1 3000
     = (None, (init_reconstruction [0, 1] 1 (1/10) 100000)
          \<lparr>self_frequency := Some [5000], self_frequency_amplitude := Some [10]\<rparr>)
   \<and> \<not> (5000 :: real) < 3000"
  by (simp add: random_choice_outcome_def read_frequencies_directly_def)

text \<open>
  C7. If \<open>number_of_samples\<close> is greater than the number of entries with a frequency
  below the cutoff, \<^verbatim>\<open>read_frequencies_directly\<close> fails and leaves the selection stored
  before unchanged. A draw without replacement, the \<^verbatim>\<open>permutation\<close> the code names,
  would raise for more samples than entries; the draw with replacement does not. With
  one eligible entry and two samples requested the call succeeds and replaces the
  selection stored before.
\<close>

theorem read_frequencies_directly_accepts_too_many:
  "int (length (filter (\<lambda>f. f < 3000) [1 :: real])) < 2
   \<and> random_choice_outcome (length (filter (\<lambda>f. f < 3000) [1 :: real])) 2 [0, 0]
   \<and> read_frequencies_directly [0, 0]
        ((init_reconstruction [0, 1] 1 (1/10) 100000)
           \<lparr>self_frequency := Some [7], self_frequency_amplitude := Some [70]\<rparr>)
        [1] [10] 2 3000
     = (None, (init_reconstruction [0, 1] 1 (1/10) 100000)
          \<lparr>self_frequency := Some [1, 1], self_frequency_amplitude := Some [10, 10]\<rparr>)
   \<and> self_frequency ((init_reconstruction [0, 1] 1 (1/10) 100000)
          \<lparr>self_frequency := Some [1, 1], self_frequency_amplitude := Some [10, 10]\<rparr>)
     \<noteq> self_frequency ((init_reconstruction [0, 1] 1 (1/10) 100000)
          \<lparr>self_frequency := Some [7], self_frequency_amplitude := Some [70]\<rparr>)"
  by (simp add: random_choice_outcome_def read_frequencies_directly_def)

text \<open>
  With no eligible entry the random choice raises for a positive number of samples, and
  the indexing raises for none; in both cases nothing is stored.
\<close>

lemma read_frequencies_directly_empty_population:
  assumes "length (filter (\<lambda>f. f < frequency_cutoff) frequency) = 0"
  shows "read_frequencies_directly draw self frequency frequency_amplitude number_of_samples
           frequency_cutoff
         = (Some (if number_of_samples = 0 then IndexError else ValueError), self)"
  using assms by (simp add: read_frequencies_directly_def)

section \<open>The loop body of plain ISTA\<close>

text \<open>
  C8. In the plain ISTA driver every loop iteration applies the forward predictor first,
  then the manifold gradient step, then the sparsity shrinkage step. The loop body of
  \<^verbatim>\<open>evaluate_naive_ista\<close> launches the sparse step first, then the prediction, then
  the manifold step. On the one-sample system with operator \<open>[[1]]\<close>, measurement
  \<open>[0]\<close>, signal \<open>[3/2]\<close> and step sizes \<open>1/10\<close> and \<open>1/2\<close> the body leaves the signal
  \<open>[7/10]\<close>; the order of the claim, which is the order of \<^verbatim>\<open>evaluate_fista\<close>, gives
  \<open>[13/20]\<close>.
\<close>

theorem naive_ista_iteration_order:
  "v_amplitude (naive_ista_iteration (1/10) (1/2) 1 1
      \<lparr>v_time_coarse = [1], v_frequency = [1], v_frequency_amplitude = [0],
       v_fourier_transform = [[1]], v_frequency_amplitude_prediction = [5],
       v_amplitude = [3/2], v_amplitude_previous = [0],
       v_fast_step_size = 1, v_fastStep_size_previous = 1\<rparr>) = [7/10]
   \<and> v_amplitude (spec_ista_iteration (1/10) (1/2) 1 1
      \<lparr>v_time_coarse = [1], v_frequency = [1], v_frequency_amplitude = [0],
       v_fourier_transform = [[1]], v_frequency_amplitude_prediction = [5],
       v_amplitude = [3/2], v_amplitude_previous = [0],
       v_fast_step_size = 1, v_fastStep_size_previous = 1\<rparr>) = [13/20]"
proof -
  have cover: "\<And>x :: real. length [x] \<le> Suc 0 * threads_per_block"
    by (simp add: threads_per_block_def)
  have predict: "\<And>a old. launch (Suc 0) threads_per_block
      (reconstruct_ista_prediction_step [0] [a] [[1]]) [old] = [a]"
    by (simp add: prediction_launch [OF cover])
  have descend: "\<And>a r. launch (Suc 0) threads_per_block
      (reconstruct_sista_manifold_step [r] (1/2) [[1]]) [a] = [a - r / 2]"
    by (simp add: manifold_launch [OF cover])
  have threshold: "launch (Suc 0) threads_per_block
      (reconstruct_ista_sparse_step (1/10)) [a] = [a - 1/10]" if "1/10 < a" for a :: real
  proof -
    have "sparse_cell (1/10) a = shrink a (1/10)"
      using that by (intro sparse_cell_soft_threshold) simp_all
    with that show ?thesis
      by (simp add: sparse_launch [OF cover] shrink_def)
  qed
  show ?thesis
    by (simp add: naive_ista_iteration_def spec_ista_iteration_def ista_steps_def Let_def
        predict descend threshold)
qed

end
